theory Spec2Isabelle
  imports Complex_Main
begin

section \<open>JavaScript numbers\<close>

text \<open>
  A JavaScript \<^verbatim>\<open>number\<close> is a binary64 floating-point value: a finite double, given
  by the rational it denotes, or one of the three non-finite values. Every arithmetic
  operation computes the exact result and rounds it to the nearest double, a tie to the
  even significand; a result beyond the largest double becomes an infinity. The sign of
  zero is not modelled (a zero divisor is the positive zero).
\<close>

datatype number = Num rat | Infinity | NegInfinity | NaN

text \<open>
  The binade of a positive rational \<open>x\<close>, the largest \<open>e\<close> with \<open>2 ^ e \<le> x\<close>, searched
  downwards from 1024 and not below -1075 (which is all that rounding needs).
\<close>

fun find_binade :: "nat \<Rightarrow> int \<Rightarrow> rat \<Rightarrow> int" where
  "find_binade 0 e x = e"
| "find_binade (Suc n) e x = (if 2 powi e \<le> x then e else find_binade n (e - 1) x)"

definition binade :: "rat \<Rightarrow> int" where
  "binade x = find_binade 2099 1024 x"

definition round_half_even :: "rat \<Rightarrow> int" where
  "round_half_even x =
     (let f = \<lfloor>x\<rfloor>; d = x - of_int f
      in if d < 1 / 2 then f else if 1 / 2 < d then f + 1 else if even f then f else f + 1)"

text \<open>
  Rounding to binary64: 53 significant bits in the normal range, multiples of
  \<open>2 ^ -1074\<close> below it, overflow at \<open>2 ^ 1024\<close>.
\<close>

definition fl :: "rat \<Rightarrow> number" where
  "fl x =
     (let e = binade \<bar>x\<bar>;
          t = max e (- 1022) - 52;
          y = of_int (round_half_even (x / 2 powi t)) * 2 powi t
      in if 2 ^ 1024 \<le> \<bar>y\<bar> then (if x < 0 then NegInfinity else Infinity) else Num y)"

fun js_neg :: "number \<Rightarrow> number" where
  "js_neg (Num a) = Num (- a)"
| "js_neg Infinity = NegInfinity"
| "js_neg NegInfinity = Infinity"
| "js_neg NaN = NaN"

fun js_add :: "number \<Rightarrow> number \<Rightarrow> number" where
  "js_add NaN _ = NaN"
| "js_add _ NaN = NaN"
| "js_add (Num a) (Num b) = fl (a + b)"
| "js_add Infinity NegInfinity = NaN"
| "js_add NegInfinity Infinity = NaN"
| "js_add Infinity _ = Infinity"
| "js_add _ Infinity = Infinity"
| "js_add NegInfinity _ = NegInfinity"
| "js_add _ NegInfinity = NegInfinity"

definition js_sub :: "number \<Rightarrow> number \<Rightarrow> number" where
  "js_sub x y = js_add x (js_neg y)"

text \<open>The sign of a number that is not NaN: \<open>-1\<close>, \<open>0\<close> or \<open>1\<close>.\<close>

fun js_sign :: "number \<Rightarrow> int" where
  "js_sign (Num a) = (if a < 0 then - 1 else if a = 0 then 0 else 1)"
| "js_sign Infinity = 1"
| "js_sign NegInfinity = - 1"
| "js_sign NaN = 0"

definition signed_infinity :: "int \<Rightarrow> number" where
  "signed_infinity s = (if s < 0 then NegInfinity else Infinity)"

fun js_mul :: "number \<Rightarrow> number \<Rightarrow> number" where
  "js_mul NaN _ = NaN"
| "js_mul _ NaN = NaN"
| "js_mul (Num a) (Num b) = fl (a * b)"
| "js_mul x y =
     (if js_sign x = 0 \<or> js_sign y = 0 then NaN else signed_infinity (js_sign x * js_sign y))"

fun js_div :: "number \<Rightarrow> number \<Rightarrow> number" where
  "js_div NaN _ = NaN"
| "js_div _ NaN = NaN"
| "js_div (Num a) (Num b) =
     (if b = 0 then (if a = 0 then NaN else signed_infinity (js_sign (Num a)))
      else fl (a / b))"
| "js_div (Num a) _ = Num 0"
| "js_div x (Num b) = signed_infinity (js_sign x * (if b < 0 then - 1 else 1))"
| "js_div _ _ = NaN"

text \<open>
  A term in months is a whole number or, when a date does not parse, NaN: \<open>None\<close>.
  This is the only kind of number the engine uses as a count, as an exponent or as a
  loop bound.
\<close>

definition of_term :: "int option \<Rightarrow> number" where
  "of_term n = (case n of None \<Rightarrow> NaN | Some k \<Rightarrow> Num (of_int k))"

text \<open>
  \<^verbatim>\<open>Math.pow\<close> at such an exponent. The language leaves the last bit of
  \<^verbatim>\<open>Math.pow\<close> to the implementation; it is taken as correctly rounded.
\<close>

fun Math_pow :: "number \<Rightarrow> int option \<Rightarrow> number" where
  "Math_pow x None = NaN"
| "Math_pow (Num b) (Some e) =
     (if b = 0 \<and> e < 0 then Infinity else fl (b powi e))"
| "Math_pow NaN (Some e) = (if e = 0 then Num 1 else NaN)"
| "Math_pow Infinity (Some e) =
     (if e = 0 then Num 1 else if 0 < e then Infinity else Num 0)"
| "Math_pow NegInfinity (Some e) =
     (if e = 0 then Num 1 else if e < 0 then Num 0
      else if even e then Infinity else NegInfinity)"

text \<open>
  \<^verbatim>\<open>Math.round\<close> gives the nearest integer, a tie towards plus infinity; the result
  is exact.
\<close>

fun Math_round :: "number \<Rightarrow> number" where
  "Math_round (Num a) = Num (of_int \<lfloor>a + 1 / 2\<rfloor>)"
| "Math_round x = x"

fun Math_max :: "number \<Rightarrow> number \<Rightarrow> number" where
  "Math_max NaN _ = NaN"
| "Math_max _ NaN = NaN"
| "Math_max (Num a) (Num b) = Num (max a b)"
| "Math_max Infinity _ = Infinity"
| "Math_max _ Infinity = Infinity"
| "Math_max NegInfinity y = y"
| "Math_max x NegInfinity = x"

text \<open>The comparison \<^verbatim>\<open>x > y\<close>, false whenever an operand is NaN.\<close>

fun js_gt :: "number \<Rightarrow> number \<Rightarrow> bool" where
  "js_gt NaN _ = False"
| "js_gt _ NaN = False"
| "js_gt (Num a) (Num b) = (b < a)"
| "js_gt Infinity y = (y \<noteq> Infinity)"
| "js_gt NegInfinity _ = False"
| "js_gt (Num a) y = (y = NegInfinity)"

text \<open>Strict equality \<^verbatim>\<open>x === y\<close> on numbers: NaN equals nothing.\<close>

definition js_eq :: "number \<Rightarrow> number \<Rightarrow> bool" where
  "js_eq x y = (x \<noteq> NaN \<and> x = y)"

text \<open>
  \<^verbatim>\<open>x || 0\<close> on an optional number: \<^verbatim>\<open>undefined\<close>, zero and NaN are falsy.
\<close>

fun or_zero :: "number option \<Rightarrow> number" where
  "or_zero None = Num 0"
| "or_zero (Some NaN) = Num 0"
| "or_zero (Some x) = x"

text \<open>\<^verbatim>\<open>Math.round(x * 100) / 100\<close>, the rounding to cents used throughout.\<close>

definition round2 :: "number \<Rightarrow> number" where
  "round2 x = js_div (Math_round (js_mul x (Num 100))) (Num 100)"

section \<open>Dates\<close>

text \<open>
  A date string is a date-only ISO string \<^verbatim>\<open>YYYY-MM-DD\<close> (the month counted from 1), as
  the form's date input and the tests supply it, or a string that \<^verbatim>\<open>new Date\<close> turns
  into an Invalid Date. Other formats that \<^verbatim>\<open>new Date\<close> accepts (a date with a time)
  are not modelled.
\<close>

datatype date_string = DateOnly int int int | Unparseable

text \<open>
  The calendar fields of a valid \<^verbatim>\<open>Date\<close> object as its accessors return them in the
  local time zone: the full year, the month counted from 0 and the day of the month.
\<close>

record Date =
  getFullYear :: int
  getMonth :: int
  getDate :: int

text \<open>The days of month \<open>m\<close> (counted from 0) of the year \<open>y\<close>.\<close>

definition leap_year :: "int \<Rightarrow> bool" where
  "leap_year y = (if y mod 100 = 0 then y mod 400 = 0 else y mod 4 = 0)"

definition daysInMonth :: "int \<Rightarrow> int \<Rightarrow> int" where
  "daysInMonth y m =
     (if m = 1 then (if leap_year y then 29 else 28)
      else if m = 3 \<or> m = 5 \<or> m = 8 \<or> m = 10 then 30 else 31)"

definition previous_day :: "Date \<Rightarrow> Date" where
  "previous_day d =
     (if 1 < getDate d then d\<lparr>getDate := getDate d - 1\<rparr>
      else if 0 < getMonth d
      then \<lparr>getFullYear = getFullYear d, getMonth = getMonth d - 1,
            getDate = daysInMonth (getFullYear d) (getMonth d - 1)\<rparr>
      else \<lparr>getFullYear = getFullYear d - 1, getMonth = 11, getDate = 31\<rparr>)"

definition next_day :: "Date \<Rightarrow> Date" where
  "next_day d =
     (if getDate d < daysInMonth (getFullYear d) (getMonth d) then d\<lparr>getDate := getDate d + 1\<rparr>
      else if getMonth d < 11
      then \<lparr>getFullYear = getFullYear d, getMonth = getMonth d + 1, getDate = 1\<rparr>
      else \<lparr>getFullYear = getFullYear d + 1, getMonth = 0, getDate = 1\<rparr>)"

text \<open>
  \<^verbatim>\<open>new Date(s)\<close> reads a date-only string as midnight UTC of that day. The accessors
  read the instant in the local time zone, given by its \<open>offset\<close> from UTC in minutes
  (negative west of UTC, by less than a day, and taken as fixed: daylight saving is not
  modelled). West of UTC midnight UTC still belongs to the previous local day. A string
  that names no calendar day of the years 0000 to 9999 gives an Invalid Date, \<open>None\<close>
  (engines differ on a day 29 to 31 that the month does not have; it is taken as
  invalid).
\<close>

fun new_Date :: "int \<Rightarrow> date_string \<Rightarrow> Date option" where
  "new_Date offset Unparseable = None"
| "new_Date offset (DateOnly y m d) =
     (if 0 \<le> y \<and> y \<le> 9999 \<and> 1 \<le> m \<and> m \<le> 12 \<and> 1 \<le> d \<and> d \<le> daysInMonth y (m - 1)
      then Some (let utc = \<lparr>getFullYear = y, getMonth = m - 1, getDate = d\<rparr>
                 in if offset < 0 then previous_day utc else utc)
      else None)"

text \<open>
  \<^verbatim>\<open>date.setMonth(m)\<close>: the month may lie outside 0..11 and then moves the year; a
  day of the month that the target month does not have runs over into the next month.
\<close>

definition setMonth :: "Date \<Rightarrow> int \<Rightarrow> Date" where
  "setMonth d m =
     (let y = getFullYear d + m div 12;
          mo = m mod 12;
          dim = daysInMonth y mo
      in if getDate d \<le> dim then \<lparr>getFullYear = y, getMonth = mo, getDate = getDate d\<rparr>
         else if mo = 11 then \<lparr>getFullYear = y + 1, getMonth = 0, getDate = getDate d - dim\<rparr>
         else \<lparr>getFullYear = y, getMonth = mo + 1, getDate = getDate d - dim\<rparr>)"

text \<open>
  \<^verbatim>\<open>date.toISOString().split('T')[0]\<close>: the day in UTC of an instant given by its local
  fields. The local time of day is that of the midnight UTC the date started from, so
  west of UTC the day in UTC is the next one.
\<close>

definition toISOString_date :: "int \<Rightarrow> Date \<Rightarrow> date_string" where
  "toISOString_date offset d =
     (let utc = (if offset < 0 then next_day d else d)
      in DateOnly (getFullYear utc) (getMonth utc + 1) (getDate utc))"

text \<open>\<^verbatim>\<open>endDate > startDate\<close> on two valid dates compares the instants.\<close>

definition date_gt :: "Date \<Rightarrow> Date \<Rightarrow> bool" where
  "date_gt e s =
     (getFullYear s < getFullYear e \<or>
      getFullYear s = getFullYear e \<and>
        (getMonth s < getMonth e \<or> getMonth s = getMonth e \<and> getDate s < getDate e))"

section \<open>The data model\<close>

text \<open>
  The interfaces of the engine. Optional fields that the engine neither reads nor sets
  (the time stamps, a journal entry's own identifier) are left out; the identifier of a
  lease is optional and is written \<open>id'\<close>.
\<close>

record LeaseData =
  id' :: "string option"
  userId :: string
  leaseName :: string
  leaseStartDate :: date_string
  leaseEndDate :: date_string
  monthlyPayment :: number
  discountRate :: number
  prepaidRent :: "number option"
  initialDirectCosts :: "number option"
  leaseIncentives :: "number option"

datatype entry_type = initial_recognition | monthly_amortization | remeasurement

record AccountEntry =
  account :: string
  amount :: number

record JournalEntry =
  leaseId :: string
  entryDate :: date_string
  entryType :: entry_type
  description :: string
  debits :: "AccountEntry list"
  credits :: "AccountEntry list"

record LeaseCalculation =
  initialLeasePayment :: number
  initialRightOfUseAsset :: number
  initialLeaseLiability :: number
  monthlyInterestExpense :: number
  monthlyAmortizationExpense :: number
  monthlyLeaseLiabilityReduction :: number
  totalLeaseTerm :: "int option"
  presentValueOfLeasePayments :: number

record MonthlySchedule =
  month :: int
  date :: date_string
  beginningLeaseLiability :: number
  interestExpense :: number
  leasePayment :: number
  principalReduction :: number
  endingLeaseLiability :: number
  rightOfUseAssetAmortization :: number
  rightOfUseAssetBalance :: number

section \<open>The calculation engine\<close>

text \<open>
  Every function that reads a date takes the offset of the local time zone as its first
  argument.
\<close>

definition calculatePresentValue :: "number \<Rightarrow> number \<Rightarrow> int option \<Rightarrow> number" where
  "calculatePresentValue monthlyPayment' discountRate' numberOfPayments =
     (let monthlyRate = js_div discountRate' (Num 12)
      in if js_eq monthlyRate (Num 0) then js_mul monthlyPayment' (of_term numberOfPayments)
         else
           let presentValue =
                 js_mul monthlyPayment'
                   (js_div (js_sub (Num 1)
                              (Math_pow (js_add (Num 1) monthlyRate)
                                 (map_option uminus numberOfPayments)))
                           monthlyRate)
           in round2 presentValue)"

definition calculateLeaseTerm :: "int \<Rightarrow> date_string \<Rightarrow> date_string \<Rightarrow> int option" where
  "calculateLeaseTerm offset startDate endDate =
     (case (new_Date offset startDate, new_Date offset endDate) of
        (Some start, Some end) \<Rightarrow>
          Some ((getFullYear end - getFullYear start) * 12 + (getMonth end - getMonth start))
      | _ \<Rightarrow> None)"

definition calculateLeaseMetrics :: "int \<Rightarrow> LeaseData \<Rightarrow> LeaseCalculation" where
  "calculateLeaseMetrics offset leaseData =
     (let totalLeaseTerm' =
            calculateLeaseTerm offset (leaseStartDate leaseData) (leaseEndDate leaseData);
          presentValueOfLeasePayments' =
            calculatePresentValue (monthlyPayment leaseData) (discountRate leaseData)
              totalLeaseTerm';
          initialDirectCosts' = or_zero (initialDirectCosts leaseData);
          prepaidRent' = or_zero (prepaidRent leaseData);
          leaseIncentives' = or_zero (leaseIncentives leaseData);
          initialLeaseLiability' = presentValueOfLeasePayments';
          initialRightOfUseAsset' =
            js_sub (js_add (js_add initialLeaseLiability' initialDirectCosts') prepaidRent')
              leaseIncentives';
          monthlyInterestRate = js_div (discountRate leaseData) (Num 12);
          monthlyAmortizationExpense' =
            js_div initialRightOfUseAsset' (of_term totalLeaseTerm')
      in \<lparr>initialLeasePayment = monthlyPayment leaseData,
          initialRightOfUseAsset = round2 initialRightOfUseAsset',
          initialLeaseLiability = round2 initialLeaseLiability',
          monthlyInterestExpense = Num 0,
          monthlyAmortizationExpense = round2 monthlyAmortizationExpense',
          monthlyLeaseLiabilityReduction = Num 0,
          totalLeaseTerm = totalLeaseTerm',
          presentValueOfLeasePayments = round2 presentValueOfLeasePayments'\<rparr>)"

text \<open>
  The loop of \<^verbatim>\<open>generateAmortizationSchedule\<close> threads three variables: the two
  running balances and the schedule built so far. Its body runs only when the term is a
  number, so the start date is valid there and \<^verbatim>\<open>toISOString\<close> cannot throw.
\<close>

record loop_state =
  currentLeaseLiability :: number
  currentRightOfUseAsset :: number
  schedule :: "MonthlySchedule list"

definition loop_body ::
  "int \<Rightarrow> LeaseData \<Rightarrow> LeaseCalculation \<Rightarrow> number \<Rightarrow> int \<Rightarrow> loop_state \<Rightarrow> loop_state" where
  "loop_body offset leaseData calculation monthlyRate month' st =
     (let date' = (case new_Date offset (leaseStartDate leaseData) of
                     None \<Rightarrow> Unparseable
                   | Some d \<Rightarrow> toISOString_date offset (setMonth d (getMonth d + month' - 1)));
          interestExpense' = js_mul (currentLeaseLiability st) monthlyRate;
          principalReduction' = js_sub (monthlyPayment leaseData) interestExpense';
          endingLeaseLiability' = js_sub (currentLeaseLiability st) principalReduction';
          rightOfUseAssetAmortization' = monthlyAmortizationExpense calculation;
          rightOfUseAssetBalance' =
            js_sub (currentRightOfUseAsset st) rightOfUseAssetAmortization'
      in \<lparr>currentLeaseLiability = Math_max (Num 0) endingLeaseLiability',
          currentRightOfUseAsset = Math_max (Num 0) rightOfUseAssetBalance',
          schedule = schedule st @
            [\<lparr>month = month',
              date = date',
              beginningLeaseLiability = round2 (currentLeaseLiability st),
              interestExpense = round2 interestExpense',
              leasePayment = monthlyPayment leaseData,
              principalReduction = round2 principalReduction',
              endingLeaseLiability = round2 (Math_max (Num 0) endingLeaseLiability'),
              rightOfUseAssetAmortization = round2 rightOfUseAssetAmortization',
              rightOfUseAssetBalance = round2 (Math_max (Num 0) rightOfUseAssetBalance')\<rparr>]\<rparr>)"

text \<open>\<^verbatim>\<open>month <= calculation.totalLeaseTerm\<close>, false when the term is NaN.\<close>

definition month_le_term :: "int \<Rightarrow> int option \<Rightarrow> bool" where
  "month_le_term m n = (case n of None \<Rightarrow> False | Some k \<Rightarrow> m \<le> k)"

definition months_left :: "int option \<Rightarrow> int \<Rightarrow> nat" where
  "months_left n m = (case n of None \<Rightarrow> 0 | Some k \<Rightarrow> nat (k + 1 - m))"

function for_loop ::
  "int \<Rightarrow> LeaseData \<Rightarrow> LeaseCalculation \<Rightarrow> number \<Rightarrow> int \<Rightarrow> loop_state \<Rightarrow> loop_state" where
  "for_loop offset leaseData calculation monthlyRate month' st =
     (if month_le_term month' (totalLeaseTerm calculation)
      then for_loop offset leaseData calculation monthlyRate (month' + 1)
             (loop_body offset leaseData calculation monthlyRate month' st)
      else st)"
  by pat_completeness auto
termination
  by (relation "measure (\<lambda>(offset, leaseData, calculation, monthlyRate, month', st).
                  months_left (totalLeaseTerm calculation) month')")
     (auto simp: month_le_term_def months_left_def split: option.splits)

definition schedule_init :: "LeaseCalculation \<Rightarrow> loop_state" where
  "schedule_init calculation =
     \<lparr>currentLeaseLiability = initialLeaseLiability calculation,
      currentRightOfUseAsset = initialRightOfUseAsset calculation,
      schedule = []\<rparr>"

definition generateAmortizationSchedule :: "int \<Rightarrow> LeaseData \<Rightarrow> MonthlySchedule list" where
  "generateAmortizationSchedule offset leaseData =
     (let calculation = calculateLeaseMetrics offset leaseData;
          monthlyRate = js_div (discountRate leaseData) (Num 12)
      in schedule (for_loop offset leaseData calculation monthlyRate 1
                     (schedule_init calculation)))"


definition or_empty :: "string option \<Rightarrow> string" where
  "or_empty s = (case s of None \<Rightarrow> [] | Some t \<Rightarrow> t)"


text \<open>
  A template literal prints a whole number in decimal, most significant digit first.
\<close>

definition digit_char :: "nat \<Rightarrow> char" where
  "digit_char d = ''0123456789'' ! d"

function decimal :: "nat \<Rightarrow> string" where
  "decimal n =
     (if 10 \<le> n then decimal (n div 10) @ [digit_char (n mod 10)] else [digit_char n])"
  by pat_completeness auto
termination
  by (relation "measure (\<lambda>n. n)") auto

definition number_to_string :: "int \<Rightarrow> string" where
  "number_to_string i =
     (if 0 \<le> i then decimal (nat i) else CHR ''-'' # decimal (nat (- i)))"

definition interestEntry :: "LeaseData \<Rightarrow> MonthlySchedule \<Rightarrow> JournalEntry" where
  "interestEntry leaseData monthData =
     \<lparr>leaseId = or_empty (id' leaseData),
      entryDate = date monthData,
      entryType = monthly_amortization,
      description =
        ''Month '' @ number_to_string (month monthData) @ '' - Interest expense and lease payment'',
      debits = [\<lparr>account = ''Interest Expense'', amount = interestExpense monthData\<rparr>,
                \<lparr>account = ''Lease Liability'', amount = principalReduction monthData\<rparr>],
      credits = [\<lparr>account = ''Cash'', amount = leasePayment monthData\<rparr>]\<rparr>"

definition amortizationEntry :: "LeaseData \<Rightarrow> MonthlySchedule \<Rightarrow> JournalEntry" where
  "amortizationEntry leaseData monthData =
     \<lparr>leaseId = or_empty (id' leaseData),
      entryDate = date monthData,
      entryType = monthly_amortization,
      description =
        ''Month '' @ number_to_string (month monthData) @ '' - Right-of-use asset amortization'',
      debits = [\<lparr>account = ''Amortization Expense - Right-of-Use Asset'',
                 amount = rightOfUseAssetAmortization monthData\<rparr>],
      credits = [\<lparr>account = ''Accumulated Amortization - Right-of-Use Asset'',
                  amount = rightOfUseAssetAmortization monthData\<rparr>]\<rparr>"

text \<open>
  \<^verbatim>\<open>schedule.forEach\<close> visits the rows in order and pushes the two entries of each
  row onto \<^verbatim>\<open>entries\<close>.
\<close>

fun forEach_push ::
  "LeaseData \<Rightarrow> MonthlySchedule list \<Rightarrow> JournalEntry list \<Rightarrow> JournalEntry list" where
  "forEach_push leaseData [] entries = entries"
| "forEach_push leaseData (monthData # rest) entries =
     forEach_push leaseData rest
       (entries @ [interestEntry leaseData monthData, amortizationEntry leaseData monthData])"

definition generateMonthlyAmortizationEntries :: "int \<Rightarrow> LeaseData \<Rightarrow> JournalEntry list" where
  "generateMonthlyAmortizationEntries offset leaseData =
     forEach_push leaseData (generateAmortizationSchedule offset leaseData) []"

section \<open>The validation schema and the balance of an entry\<close>

text \<open>
  \<^verbatim>\<open>leaseDataSchema\<close> of the validation layer: a name of 1 to 100 characters, two
  dates that parse with the end after the start, a positive monthly payment, a discount
  rate between 0 and 1 and non-negative optional amounts. Amounts are read as finite
  numbers.
\<close>

fun is_positive :: "number \<Rightarrow> bool" where
  "is_positive (Num a) = (0 < a)"
| "is_positive _ = False"

fun in_unit_interval :: "number \<Rightarrow> bool" where
  "in_unit_interval (Num a) = (0 \<le> a \<and> a \<le> 1)"
| "in_unit_interval _ = False"

fun optional_nonneg :: "number option \<Rightarrow> bool" where
  "optional_nonneg None = True"
| "optional_nonneg (Some (Num a)) = (0 \<le> a)"
| "optional_nonneg (Some _) = False"

definition end_after_start :: "date_string \<Rightarrow> date_string \<Rightarrow> bool" where
  "end_after_start startDate endDate =
     (case (new_Date 0 startDate, new_Date 0 endDate) of
        (Some s, Some e) \<Rightarrow> date_gt e s
      | _ \<Rightarrow> False)"

definition leaseDataSchema :: "LeaseData \<Rightarrow> bool" where
  "leaseDataSchema data =
     (1 \<le> length (leaseName data) \<and> length (leaseName data) \<le> 100 \<and>
      new_Date 0 (leaseStartDate data) \<noteq> None \<and>
      new_Date 0 (leaseEndDate data) \<noteq> None \<and>
      is_positive (monthlyPayment data) \<and>
      in_unit_interval (discountRate data) \<and>
      optional_nonneg (prepaidRent data) \<and>
      optional_nonneg (initialDirectCosts data) \<and>
      optional_nonneg (leaseIncentives data) \<and>
      end_after_start (leaseStartDate data) (leaseEndDate data))"

text \<open>
  The totals of an entry are taken as the validation layer and the tests take them,
  \<^verbatim>\<open>entries.reduce((sum, entry) => sum + entry.amount, 0)\<close>.
\<close>

definition reduce_sum :: "AccountEntry list \<Rightarrow> number" where
  "reduce_sum entries = foldl (\<lambda>sum entry. js_add sum (amount entry)) (Num 0) entries"

text \<open>\<^verbatim>\<open>Math.abs\<close>.\<close>

fun Math_abs :: "number \<Rightarrow> number" where
  "Math_abs (Num a) = Num \<bar>a\<bar>"
| "Math_abs NaN = NaN"
| "Math_abs _ = Infinity"

text \<open>
  The difference of the totals as \<^verbatim>\<open>journalEntrySchema\<close> takes it,
  \<^verbatim>\<open>Math.abs(totalDebits - totalCredits)\<close>. That schema accepts an entry when the
  difference is less than the literal 0.01; an entry balances within the tolerance
  0.01 when the difference is not greater than it.
\<close>

definition imbalance :: "JournalEntry \<Rightarrow> number" where
  "imbalance entry = Math_abs (js_sub (reduce_sum (debits entry)) (reduce_sum (credits entry)))"

definition journalEntrySchema_balance :: "JournalEntry \<Rightarrow> bool" where
  "journalEntrySchema_balance entry = js_gt (fl (1 / 100)) (imbalance entry)"

definition balanced :: "JournalEntry \<Rightarrow> bool" where
  "balanced entry =
     (imbalance entry \<noteq> NaN \<and> \<not> js_gt (imbalance entry) (fl (1 / 100)))"

section \<open>Auxiliary definitions for the properties\<close>

text \<open>
  The loop state after the first \<open>k\<close> iterations of \<^verbatim>\<open>generateAmortizationSchedule\<close>;
  iteration \<open>k + 1\<close> starts from it.
\<close>

fun state_after :: "int \<Rightarrow> LeaseData \<Rightarrow> nat \<Rightarrow> loop_state" where
  "state_after offset leaseData 0 = schedule_init (calculateLeaseMetrics offset leaseData)"
| "state_after offset leaseData (Suc k) =
     loop_body offset leaseData (calculateLeaseMetrics offset leaseData)
       (js_div (discountRate leaseData) (Num 12)) (int (Suc k))
       (state_after offset leaseData k)"

text \<open>The number of rows that a term gives.\<close>

definition term_rows :: "int option \<Rightarrow> nat" where
  "term_rows n = (case n of None \<Rightarrow> 0 | Some k \<Rightarrow> nat k)"

section \<open>The formulas of the specification\<close>

text \<open>Rounding to two decimals on the rationals, a tie upwards.\<close>

definition round_cents :: "rat \<Rightarrow> rat" where
  "round_cents x = of_int \<lfloor>x * 100 + 1 / 2\<rfloor> / 100"

text \<open>
  The present value as the specification words it, on exact numbers: the payment times
  the number of periods when the monthly rate \<open>annualRate / 12\<close> is 0, else the
  ordinary-annuity formula rounded to two decimals.
\<close>

definition spec_presentValue :: "rat \<Rightarrow> rat \<Rightarrow> int \<Rightarrow> rat" where
  "spec_presentValue payment annualRate periods =
     (let monthlyRate = annualRate / 12
      in if monthlyRate = 0 then payment * of_int periods
         else round_cents (payment * (1 - (1 + monthlyRate) powi (- periods)) / monthlyRate))"

text \<open>
  The term as the specification words it, from the calendar dates that the two strings
  name: twelve times the difference of the years plus the difference of the months.
\<close>

fun spec_leaseTerm :: "date_string \<Rightarrow> date_string \<Rightarrow> int option" where
  "spec_leaseTerm (DateOnly y1 m1 d1) (DateOnly y2 m2 d2) = Some ((y2 - y1) * 12 + (m2 - m1))"
| "spec_leaseTerm _ _ = None"

text \<open>The rational that a finite number denotes.\<close>

fun finite_value :: "number \<Rightarrow> rat" where
  "finite_value (Num a) = a"
| "finite_value _ = 0"

section \<open>Concrete leases\<close>

text \<open>
  A decimal literal of the source denotes the double nearest to it: \<^verbatim>\<open>0.05\<close> is
  \<open>fl (5 / 100)\<close>. The first lease is the sample lease of the test suite.
\<close>

definition sample_lease :: LeaseData where
  "sample_lease =
     \<lparr>id' = Some ''test-lease-1'', userId = ''test-user'', leaseName = ''Test Office Lease'',
      leaseStartDate = DateOnly 2024 1 1, leaseEndDate = DateOnly 2026 12 31,
      monthlyPayment = Num 5000, discountRate = fl (5 / 100),
      prepaidRent = Some (Num 1000), initialDirectCosts = Some (Num 500),
      leaseIncentives = Some (Num 2000)\<rparr>"

text \<open>The sample lease ended in its first month, and the sample lease over two months
  at a rate of 200%.\<close>

definition same_month_lease :: LeaseData where
  "same_month_lease = sample_lease\<lparr>leaseEndDate := DateOnly 2024 1 31\<rparr>"

definition rate_200_lease :: LeaseData where
  "rate_200_lease = sample_lease\<lparr>leaseEndDate := DateOnly 2024 3 31, discountRate := Num 2\<rparr>"


text \<open>
  A lease of two months whose first interest and first principal reduction both end in
  half a cent.
\<close>

definition half_cent_lease :: LeaseData where
  "half_cent_lease =
     \<lparr>id' = Some ''lease-2'', userId = ''test-user'', leaseName = ''Two months'',
      leaseStartDate = DateOnly 2024 1 1, leaseEndDate = DateOnly 2024 3 1,
      monthlyPayment = Num 9565, discountRate = fl (15 / 100),
      prepaidRent = None, initialDirectCosts = None, leaseIncentives = None\<rparr>"

section \<open>The schedule loop\<close>

declare for_loop.simps [simp del]

lemma for_loop_state_after:
  "k \<le> term_rows (totalLeaseTerm (calculateLeaseMetrics offset ld)) \<Longrightarrow>
   for_loop offset ld (calculateLeaseMetrics offset ld) (js_div (discountRate ld) (Num 12))
     (int k + 1) (state_after offset ld k) =
   state_after offset ld (term_rows (totalLeaseTerm (calculateLeaseMetrics offset ld)))"
proof (induction "term_rows (totalLeaseTerm (calculateLeaseMetrics offset ld)) - k" arbitrary: k)
  case 0
  then have k: "k = term_rows (totalLeaseTerm (calculateLeaseMetrics offset ld))" by simp
  then have "\<not> month_le_term (int k + 1) (totalLeaseTerm (calculateLeaseMetrics offset ld))"
    by (auto simp: month_le_term_def term_rows_def split: option.splits)
  then show ?case using k by (subst for_loop.simps) simp
next
  case (Suc n)
  then have lt: "month_le_term (int k + 1) (totalLeaseTerm (calculateLeaseMetrics offset ld))"
    by (auto simp: month_le_term_def term_rows_def split: option.splits)
  have "n = term_rows (totalLeaseTerm (calculateLeaseMetrics offset ld)) - Suc k"
    using Suc by simp
  moreover have "Suc k \<le> term_rows (totalLeaseTerm (calculateLeaseMetrics offset ld))"
    using Suc by simp
  ultimately have IH:
    "for_loop offset ld (calculateLeaseMetrics offset ld) (js_div (discountRate ld) (Num 12))
       (int (Suc k) + 1) (state_after offset ld (Suc k)) =
     state_after offset ld (term_rows (totalLeaseTerm (calculateLeaseMetrics offset ld)))"
    using Suc.hyps(1) by blast
  have "int k + 1 + 1 = int (Suc k) + 1" "int k + 1 = int (Suc k)" by simp_all
  then show ?case using lt IH by (subst for_loop.simps) (simp add: add.commute)
qed

lemma schedule_state_after:
  "generateAmortizationSchedule offset ld =
     schedule (state_after offset ld
                 (term_rows (totalLeaseTerm (calculateLeaseMetrics offset ld))))"
  using for_loop_state_after [of 0 offset ld]
  by (simp add: generateAmortizationSchedule_def Let_def)

lemma length_state_after: "length (schedule (state_after offset ld k)) = k"
  by (induction k) (simp_all add: schedule_init_def loop_body_def Let_def)

lemma schedule_state_after_Suc:
  "schedule (state_after offset ld (Suc k)) =
     schedule (state_after offset ld k) @ [last (schedule (state_after offset ld (Suc k)))]"
  by (simp add: loop_body_def Let_def)

lemma state_after_prefix:
  "k \<le> n \<Longrightarrow>
     schedule (state_after offset ld k) = take k (schedule (state_after offset ld n))"
proof (induction n)
  case 0 then show ?case by (simp add: schedule_init_def)
next
  case (Suc n)
  show ?case
  proof (cases "k = Suc n")
    case True then show ?thesis using length_state_after [of offset ld "Suc n"] by simp
  next
    case False
    then have "k \<le> n" using Suc.prems by simp
    then have "schedule (state_after offset ld k) = take k (schedule (state_after offset ld n))"
      using Suc.IH by simp
    also have "\<dots> = take k (schedule (state_after offset ld (Suc n)))"
      using \<open>k \<le> n\<close> length_state_after [of offset ld n]
      by (subst schedule_state_after_Suc) simp
    finally show ?thesis .
  qed
qed

lemma totalLeaseTerm_eq:
  "totalLeaseTerm (calculateLeaseMetrics offset ld) =
     calculateLeaseTerm offset (leaseStartDate ld) (leaseEndDate ld)"
  by (simp add: calculateLeaseMetrics_def Let_def)

lemma length_schedule:
  "length (generateAmortizationSchedule offset ld) =
     term_rows (calculateLeaseTerm offset (leaseStartDate ld) (leaseEndDate ld))"
  by (simp add: schedule_state_after length_state_after totalLeaseTerm_eq)

lemma nth_schedule:
  assumes "k < length (generateAmortizationSchedule offset ld)"
  shows "generateAmortizationSchedule offset ld ! k =
         last (schedule (state_after offset ld (Suc k)))"
proof -
  let ?n = "term_rows (totalLeaseTerm (calculateLeaseMetrics offset ld))"
  have kn: "Suc k \<le> ?n" using assms by (simp add: length_schedule totalLeaseTerm_eq)
  have "schedule (state_after offset ld (Suc k)) =
        take (Suc k) (generateAmortizationSchedule offset ld)"
    using state_after_prefix [OF kn] by (simp add: schedule_state_after)
  then have "last (schedule (state_after offset ld (Suc k))) =
      last (take (Suc k) (generateAmortizationSchedule offset ld))" by simp
  also have "\<dots> = generateAmortizationSchedule offset ld ! k"
    using assms by (simp add: take_Suc_conv_app_nth)
  finally show ?thesis by simp
qed



lemma last_row_amortization:
  "rightOfUseAssetAmortization (last (schedule (state_after offset ld (Suc k)))) =
     round2 (monthlyAmortizationExpense (calculateLeaseMetrics offset ld))"
  by (simp add: loop_body_def Let_def)

lemma last_row_ending:
  "endingLeaseLiability (last (schedule (state_after offset ld (Suc k)))) =
     round2 (currentLeaseLiability (state_after offset ld (Suc k)))"
  by (simp add: loop_body_def Let_def)

lemma last_row_beginning:
  "beginningLeaseLiability (last (schedule (state_after offset ld (Suc k)))) =
     round2 (currentLeaseLiability (state_after offset ld k))"
  by (simp add: loop_body_def Let_def)

lemma last_row_balance:
  "rightOfUseAssetBalance (last (schedule (state_after offset ld (Suc k)))) =
     round2 (currentRightOfUseAsset (state_after offset ld (Suc k)))"
  by (simp add: loop_body_def Let_def)

lemma last_row_interest:
  "interestExpense (last (schedule (state_after offset ld (Suc k)))) =
     round2 (js_mul (currentLeaseLiability (state_after offset ld k))
               (js_div (discountRate ld) (Num 12)))"
  by (simp add: loop_body_def Let_def)

lemma last_row_principal:
  "principalReduction (last (schedule (state_after offset ld (Suc k)))) =
     round2 (js_sub (monthlyPayment ld)
       (js_mul (currentLeaseLiability (state_after offset ld k))
          (js_div (discountRate ld) (Num 12))))"
  by (simp add: loop_body_def Let_def)

lemma last_row_payment:
  "leasePayment (last (schedule (state_after offset ld (Suc k)))) = monthlyPayment ld"
  by (simp add: loop_body_def Let_def)

lemma state_after_Suc_liability:
  "currentLeaseLiability (state_after offset ld (Suc k)) =
     Math_max (Num 0)
       (js_sub (currentLeaseLiability (state_after offset ld k))
          (js_sub (monthlyPayment ld)
             (js_mul (currentLeaseLiability (state_after offset ld k))
                (js_div (discountRate ld) (Num 12)))))"
  by (simp add: loop_body_def Let_def)

lemma state_after_Suc_asset:
  "currentRightOfUseAsset (state_after offset ld (Suc k)) =
     Math_max (Num 0)
       (js_sub (currentRightOfUseAsset (state_after offset ld k))
          (monthlyAmortizationExpense (calculateLeaseMetrics offset ld)))"
  by (simp add: loop_body_def Let_def)

declare state_after.simps [simp del]

lemma forEach_push_concat:
  "forEach_push ld rows entries =
     entries @ concat (map (\<lambda>monthData. [interestEntry ld monthData, amortizationEntry ld monthData]) rows)"
  by (induction rows arbitrary: entries) simp_all


lemma nth_concat_pairs:
  "i < length xs \<Longrightarrow>
     concat (map (\<lambda>x. [f x, g x]) xs) ! (2 * i) = f (xs ! i) \<and>
     concat (map (\<lambda>x. [f x, g x]) xs) ! (2 * i + 1) = g (xs ! i)"
proof (induction xs arbitrary: i)
  case Nil then show ?case by simp
next
  case (Cons x xs)
  show ?case
  proof (cases i)
    case 0 then show ?thesis by simp
  next
    case (Suc j)
    then have "j < length xs" using Cons.prems by simp
    from Cons.IH [OF this] show ?thesis using Suc by simp
  qed
qed



lemma floor_rat_divide_numeral [simp]:
  "\<lfloor>(numeral a :: rat) / numeral b\<rfloor> = numeral a div numeral b"
  using floor_divide_of_int_eq [of "numeral a" "numeral b", where ?'a = rat] by simp

lemma floor_rat_minus_divide_numeral [simp]:
  "\<lfloor>- ((numeral a :: rat) / numeral b)\<rfloor> = - numeral a div numeral b"
  using floor_divide_of_int_eq [of "- numeral a" "numeral b", where ?'a = rat] by simp

lemma floor_rat_one_divide_numeral [simp]:
  "\<lfloor>(1 :: rat) / numeral b\<rfloor> = 1 div numeral b"
  using floor_divide_of_int_eq [of 1 "numeral b", where ?'a = rat] by simp

lemma find_binade_eq:
  assumes "2 powi e0 \<le> x" "x < 2 powi (e0 + 1)"
  shows "e0 \<le> e \<Longrightarrow> nat (e - e0) \<le> n \<Longrightarrow> find_binade n e x = e0"
proof (induction n arbitrary: e)
  case 0
  then show ?case by simp
next
  case (Suc n)
  show ?case
  proof (cases "e = e0")
    case True
    then show ?thesis using assms by simp
  next
    case False
    then have lt: "e0 + 1 \<le> e" using Suc.prems by simp
    have "(2::rat) powi (e0 + 1) \<le> 2 powi e"
      using lt by (intro power_int_increasing) simp_all
    then have "\<not> 2 powi e \<le> x" using assms(2) by simp
    moreover have "find_binade n (e - 1) x = e0"
      using Suc.prems lt by (intro Suc.IH) simp_all
    ultimately show ?thesis by simp
  qed
qed

lemma binade_eq:
  assumes "2 powi e \<le> x" "x < 2 powi (e + 1)" "- 1075 \<le> e" "e \<le> 1024"
  shows "binade x = e"
  unfolding binade_def using assms(3,4) by (intro find_binade_eq [OF assms(1,2)]) simp_all

lemma find_binade_zero: "find_binade n e 0 = e - int n"
  by (induction n arbitrary: e) (simp_all add: not_le)

lemma round_half_even_near:
  assumes "\<bar>m - of_int k\<bar> < 1 / 2"
  shows "round_half_even m = k"
proof -
  have lo: "of_int k - 1 / 2 < m" and hi: "m < of_int k + 1 / 2" using assms by linarith+
  consider "of_int k \<le> m" | "m < of_int k" by linarith
  then show ?thesis
  proof cases
    case 1
    then have "\<lfloor>m\<rfloor> = k" using hi by (intro floor_unique) simp_all
    then show ?thesis using hi by (simp add: round_half_even_def Let_def)
  next
    case 2
    then have f: "\<lfloor>m\<rfloor> = k - 1" using lo by (intro floor_unique) simp_all
    have "1 / 2 < m - of_int (k - 1)" using lo by simp
    then show ?thesis using f by (simp add: round_half_even_def Let_def)
  qed
qed

lemma round_half_even_tie:
  assumes "\<bar>m - of_int k\<bar> = 1 / 2" "even k"
  shows "round_half_even m = k"
proof -
  consider "m = of_int k + 1 / 2" | "m = of_int k - 1 / 2"
    using assms(1) by (auto simp: abs_if split: if_splits)
  then show ?thesis
  proof cases
    case 1
    then have "\<lfloor>m\<rfloor> = k" by (intro floor_unique) simp_all
    then show ?thesis using 1 assms(2) by (simp add: round_half_even_def Let_def)
  next
    case 2
    then have f: "\<lfloor>m\<rfloor> = k - 1" by (intro floor_unique) simp_all
    then show ?thesis using 2 assms(2) by (simp add: round_half_even_def Let_def)
  qed
qed


lemma fl_grid:
  assumes e: "2 powi e \<le> \<bar>x\<bar>" "\<bar>x\<bar> < 2 powi (e + 1)" and rng: "- 1022 \<le> e" "e \<le> 1023"
    and k: "round_half_even (x / 2 powi (e - 52)) = k"
    and y: "y = of_int k * 2 powi (e - 52)"
    and fin: "\<bar>y\<bar> < 2 ^ 1024"
  shows "fl x = Num y"
proof -
  have b: "binade \<bar>x\<bar> = e" using e rng by (intro binade_eq) simp_all
  have t: "max e (- 1022) - 52 = e - 52" using rng by simp
  show ?thesis using fin unfolding fl_def b t Let_def k y [symmetric] by simp
qed

text \<open>
  Certificates of a rounding: \<open>y\<close> is the double nearest to \<open>x\<close> when it lies on the grid
  of the binade of \<open>x\<close> and is nearer than half a step, or is half a step away with an
  even significand. When \<open>y\<close> lies strictly inside a binade, that is the binade of \<open>x\<close>.
\<close>

lemma fl_normalI:
  assumes "2 powi e \<le> \<bar>x\<bar>" "\<bar>x\<bar> < 2 powi (e + 1)" "- 1022 \<le> e" "e \<le> 1023"
    and grid: "y / 2 powi (e - 52) \<in> \<int>"
    and near: "\<bar>x - y\<bar> * 2 < 2 powi (e - 52)"
    and fin: "\<bar>y\<bar> < 2 ^ 1024"
  shows "fl x = Num y"
proof -
  define u :: rat where "u = 2 powi (e - 52)"
  have u: "0 < u" by (simp add: u_def)
  obtain k where k: "y / u = of_int k" using grid unfolding u_def by (auto elim: Ints_cases)
  then have y: "y = of_int k * u" using u by (simp add: nonzero_divide_eq_eq)
  have "x / u - of_int k = (x - y) / u" using u by (simp add: y diff_divide_distrib)
  then have "\<bar>x / u - of_int k\<bar> = \<bar>x - y\<bar> / u" using u by simp
  also have "\<dots> < 1 / 2"
    using near u unfolding u_def [symmetric] by (simp add: pos_divide_less_eq)
  finally have "round_half_even (x / u) = k" by (rule round_half_even_near)
  then show ?thesis
    using y unfolding u_def by (intro fl_grid [OF assms(1-4) _ _ fin])
qed

lemma fl_tieI:
  assumes "2 powi e \<le> \<bar>x\<bar>" "\<bar>x\<bar> < 2 powi (e + 1)" "- 1022 \<le> e" "e \<le> 1023"
    and grid: "y / 2 powi (e - 52) = of_int k" "even k"
    and near: "\<bar>x - y\<bar> * 2 = 2 powi (e - 52)"
    and fin: "\<bar>y\<bar> < 2 ^ 1024"
  shows "fl x = Num y"
proof -
  define u :: rat where "u = 2 powi (e - 52)"
  have u: "0 < u" by (simp add: u_def)
  have y: "y = of_int k * u"
    using u grid(1) unfolding u_def [symmetric] by (simp add: nonzero_divide_eq_eq)
  have "x / u - of_int k = (x - y) / u" using u by (simp add: y diff_divide_distrib)
  then have "\<bar>x / u - of_int k\<bar> = \<bar>x - y\<bar> / u" using u by simp
  also have "\<dots> = 1 / 2"
    using near u unfolding u_def [symmetric] by (simp add: nonzero_divide_eq_eq)
  finally have "round_half_even (x / u) = k" using grid(2) by (rule round_half_even_tie)
  then show ?thesis
    using y unfolding u_def by (intro fl_grid [OF assms(1-4) _ _ fin])
qed

lemma fl_insideI:
  assumes rng: "- 1022 \<le> e" "e \<le> 1023"
    and lo: "2 powi e < \<bar>y\<bar>" and hi: "\<bar>y\<bar> < 2 powi (e + 1)"
    and grid: "y / 2 powi (e - 52) \<in> \<int>"
    and near: "\<bar>x - y\<bar> * 2 < 2 powi (e - 52)"
  shows "fl x = Num y"
proof -
  define u :: rat where "u = 2 powi (e - 52)"
  have u: "0 < u" by (simp add: u_def)
  obtain k where k: "y / u = of_int k" using grid unfolding u_def by (auto elim: Ints_cases)
  then have y: "y = of_int k * u" using u by (simp add: nonzero_divide_eq_eq)
  have ay: "\<bar>y\<bar> = of_int \<bar>k\<bar> * u" using u by (simp add: y abs_mult)
  have e1: "(2::rat) powi e = 2 ^ 52 * u"
    unfolding u_def using power_int_add [of "2::rat" 52 "e - 52"] by simp
  have e2: "(2::rat) powi (e + 1) = 2 ^ 53 * u"
    unfolding u_def using power_int_add [of "2::rat" 53 "e - 52"] by (simp add: add.commute)
  have "(2 ^ 52 :: rat) * u < of_int \<bar>k\<bar> * u" using lo unfolding e1 ay .
  then have "(2 ^ 52 :: rat) < of_int \<bar>k\<bar>" using u by simp
  then have "(of_int (2 ^ 52) :: rat) < of_int \<bar>k\<bar>" by simp
  then have "2 ^ 52 < \<bar>k\<bar>" unfolding of_int_less_iff .
  then have "2 ^ 52 + 1 \<le> \<bar>k\<bar>" by simp
  then have "(of_int (2 ^ 52 + 1) :: rat) \<le> of_int \<bar>k\<bar>" unfolding of_int_le_iff .
  then have "(2 ^ 52 + 1) * u \<le> of_int \<bar>k\<bar> * u" using u by simp
  then have lo': "2 powi e + u \<le> \<bar>y\<bar>" unfolding e1 ay by (simp add: algebra_simps)
  have "of_int \<bar>k\<bar> * u < (2 ^ 53 :: rat) * u" using hi unfolding e2 ay .
  then have "of_int \<bar>k\<bar> < (2 ^ 53 :: rat)" using u by simp
  then have "(of_int \<bar>k\<bar> :: rat) < of_int (2 ^ 53)" by simp
  then have "\<bar>k\<bar> < 2 ^ 53" unfolding of_int_less_iff .
  then have "\<bar>k\<bar> \<le> 2 ^ 53 - 1" by simp
  then have "(of_int \<bar>k\<bar> :: rat) \<le> of_int (2 ^ 53 - 1)" unfolding of_int_le_iff .
  then have "of_int \<bar>k\<bar> * u \<le> (2 ^ 53 - 1) * u" using u by simp
  then have hi': "\<bar>y\<bar> \<le> 2 powi (e + 1) - u" unfolding e2 ay by (simp add: algebra_simps)
  have d: "\<bar>x - y\<bar> < u / 2" using near unfolding u_def by simp
  have "\<bar>y\<bar> - \<bar>x - y\<bar> \<le> \<bar>x\<bar>" by linarith
  then have x1: "2 powi e \<le> \<bar>x\<bar>" using lo' d u by linarith
  have "\<bar>x\<bar> \<le> \<bar>y\<bar> + \<bar>x - y\<bar>" by linarith
  then have x2: "\<bar>x\<bar> < 2 powi (e + 1)" using hi' d u by linarith
  have "(2::rat) powi (e + 1) \<le> 2 powi 1024"
    using rng by (intro power_int_increasing) simp_all
  then have fin: "\<bar>y\<bar> < 2 ^ 1024" using hi by simp
  show ?thesis by (rule fl_normalI [OF x1 x2 rng grid near fin])
qed

lemma fl_zero: "fl 0 = Num 0"
  by (simp add: fl_def binade_def find_binade_zero round_half_even_def)




lemma round2_eval:
  assumes "fl (x * 100) = Num d" "fl (of_int \<lfloor>d + 1 / 2\<rfloor> / 100) = Num v"
  shows "round2 (Num x) = Num v"
  using assms by (simp add: round2_def)

lemma js_sub_Num: "js_sub (Num a) (Num b) = fl (a - b)"
  by (simp add: js_sub_def)

lemma presentValue_eval:
  assumes "fl (a / 12) = Num r" "r \<noteq> 0" "fl (1 + r) = Num q" "q \<noteq> 0"
    and "fl (q powi (- n)) = Num w" "fl (1 - w) = Num b" "fl (b / r) = Num c"
    and "fl (p * c) = Num v'" "round2 (Num v') = Num v"
  shows "calculatePresentValue (Num p) (Num a) (Some n) = Num v"
  using assms by (simp add: calculatePresentValue_def js_eq_def js_sub_Num)

lemma liability_next:
  assumes "currentLeaseLiability (state_after offset ld k) = Num l"
    and "monthlyPayment ld = Num p" "js_div (discountRate ld) (Num 12) = Num r"
    and "fl (l * r) = Num i" "fl (p - i) = Num c" "fl (l - c) = Num e" "0 \<le> e" "k' = Suc k"
  shows "currentLeaseLiability (state_after offset ld k') = Num e"
  unfolding \<open>k' = Suc k\<close> state_after_Suc_liability using assms(1-7) by (simp add: js_sub_Num)

lemma asset_next:
  assumes "currentRightOfUseAsset (state_after offset ld k) = Num a"
    and "monthlyAmortizationExpense (calculateLeaseMetrics offset ld) = Num m"
    and "fl (a - m) = Num b" "0 \<le> b" "k' = Suc k"
  shows "currentRightOfUseAsset (state_after offset ld k') = Num b"
  unfolding \<open>k' = Suc k\<close> state_after_Suc_asset using assms(1-4) by (simp add: js_sub_Num)

lemma initialLeaseLiability_eq:
  "initialLeaseLiability (calculateLeaseMetrics offset ld) =
     round2 (calculatePresentValue (monthlyPayment ld) (discountRate ld)
               (calculateLeaseTerm offset (leaseStartDate ld) (leaseEndDate ld)))"
  by (simp add: calculateLeaseMetrics_def Let_def)

lemma metrics_eval:
  assumes "calculateLeaseTerm offset (leaseStartDate ld) (leaseEndDate ld) = Some n"
    and "calculatePresentValue (monthlyPayment ld) (discountRate ld) (Some n) = Num v"
    and "or_zero (initialDirectCosts ld) = Num c" "or_zero (prepaidRent ld) = Num pr"
    and "or_zero (leaseIncentives ld) = Num inc"
    and "fl (v + c) = Num s1" "fl (s1 + pr) = Num s2" "fl (s2 - inc) = Num rou"
    and "js_div (Num rou) (Num (of_int n)) = am"
    and "round2 (Num rou) = rou2" "round2 (Num v) = v2" "round2 am = am2"
  shows "calculateLeaseMetrics offset ld =
     \<lparr>initialLeasePayment = monthlyPayment ld, initialRightOfUseAsset = rou2,
      initialLeaseLiability = v2, monthlyInterestExpense = Num 0,
      monthlyAmortizationExpense = am2, monthlyLeaseLiabilityReduction = Num 0,
      totalLeaseTerm = Some n, presentValueOfLeasePayments = v2\<rparr>"
  using assms by (simp add: calculateLeaseMetrics_def Let_def of_term_def js_sub_Num)

lemma row_interest_eval:
  assumes "k < length (generateAmortizationSchedule offset ld)"
    and "currentLeaseLiability (state_after offset ld k) = Num l"
    and "js_div (discountRate ld) (Num 12) = Num r"
    and "fl (l * r) = Num i" "round2 (Num i) = i2"
  shows "interestExpense (generateAmortizationSchedule offset ld ! k) = i2"
  using assms by (simp add: nth_schedule last_row_interest)

lemma row_principal_eval:
  assumes "k < length (generateAmortizationSchedule offset ld)"
    and "currentLeaseLiability (state_after offset ld k) = Num l"
    and "monthlyPayment ld = Num p" "js_div (discountRate ld) (Num 12) = Num r"
    and "fl (l * r) = Num i" "fl (p - i) = Num c" "round2 (Num c) = c2"
  shows "principalReduction (generateAmortizationSchedule offset ld ! k) = c2"
  using assms by (simp add: nth_schedule last_row_principal js_sub_Num)

lemma row_ending_eval:
  assumes "k < length (generateAmortizationSchedule offset ld)"
    and "currentLeaseLiability (state_after offset ld k') = Num l" "round2 (Num l) = l2"
    and "k' = Suc k"
  shows "endingLeaseLiability (generateAmortizationSchedule offset ld ! k) = l2"
  using assms by (simp add: nth_schedule last_row_ending)

lemma row_balance_eval:
  assumes "k < length (generateAmortizationSchedule offset ld)"
    and "currentRightOfUseAsset (state_after offset ld k') = Num a" "round2 (Num a) = a2"
    and "k' = Suc k"
  shows "rightOfUseAssetBalance (generateAmortizationSchedule offset ld ! k) = a2"
  using assms by (simp add: nth_schedule last_row_balance)

lemma row_payment:
  "k < length (generateAmortizationSchedule offset ld) \<Longrightarrow>
     leasePayment (generateAmortizationSchedule offset ld ! k) = monthlyPayment ld"
  by (simp add: nth_schedule last_row_payment)



lemma nth_entries:
  assumes "i < length (generateAmortizationSchedule offset ld)"
  shows "generateMonthlyAmortizationEntries offset ld ! (2 * i) =
           interestEntry ld (generateAmortizationSchedule offset ld ! i)"
    and "generateMonthlyAmortizationEntries offset ld ! (2 * i + 1) =
           amortizationEntry ld (generateAmortizationSchedule offset ld ! i)"
  using nth_concat_pairs [OF assms, of "interestEntry ld" "amortizationEntry ld"]
  by (simp_all add: generateMonthlyAmortizationEntries_def forEach_push_concat)


lemma reduce_sum_one:
  assumes "fl a = Num a"
  shows "reduce_sum [\<lparr>account = n1, amount = Num a\<rparr>] = Num a"
  using assms by (simp add: reduce_sum_def)

lemma reduce_sum_two:
  assumes "fl a = Num a" "fl (a + b) = Num s"
  shows "reduce_sum [\<lparr>account = n1, amount = Num a\<rparr>, \<lparr>account = n2, amount = Num b\<rparr>] = Num s"
  using assms by (simp add: reduce_sum_def)

lemma imbalance_eval:
  assumes "reduce_sum (debits entry) = Num d" "reduce_sum (credits entry) = Num c"
    and "fl (d - c) = Num x"
  shows "imbalance entry = Num \<bar>x\<bar>"
  using assms by (simp add: imbalance_def js_sub_Num)

lemma monthly_rate_eval:
  assumes "discountRate ld = Num a" "fl (a / 12) = Num r"
  shows "js_div (discountRate ld) (Num 12) = Num r"
  using assms by simp

lemma js_div_of_int:
  assumes "n \<noteq> 0" "fl (a / of_int n) = Num q"
  shows "js_div (Num a) (Num (of_int n)) = Num q"
  using assms by simp

lemma initial_liability_eval:
  assumes "calculateLeaseTerm offset (leaseStartDate ld) (leaseEndDate ld) = Some n"
    and "calculatePresentValue (monthlyPayment ld) (discountRate ld) (Some n) = Num v"
    and "round2 (Num v) = l0"
  shows "currentLeaseLiability (state_after offset ld 0) = l0"
  using assms by (simp add: state_after.simps schedule_init_def initialLeaseLiability_eq)

lemma initial_state_metrics:
  "currentLeaseLiability (state_after offset ld 0) =
     initialLeaseLiability (calculateLeaseMetrics offset ld)"
  "currentRightOfUseAsset (state_after offset ld 0) =
     initialRightOfUseAsset (calculateLeaseMetrics offset ld)"
  by (simp_all add: state_after.simps schedule_init_def)

lemma length_schedule_eval:
  assumes "calculateLeaseTerm offset (leaseStartDate ld) (leaseEndDate ld) = Some n"
  shows "length (generateAmortizationSchedule offset ld) = nat n"
  using assms by (simp add: length_schedule term_rows_def)

section \<open>The formula of the specification at rates near zero\<close>

lemma bernoulli_up: "0 \<le> r \<Longrightarrow> 1 + of_nat n * r \<le> (1 + r :: rat) ^ n"
proof (induction n)
  case 0 then show ?case by simp
next
  case (Suc n)
  have "1 + of_nat (Suc n) * r \<le> (1 + of_nat n * r) * (1 + r)"
    using Suc.prems by (simp add: algebra_simps)
  also have "\<dots> \<le> (1 + r) ^ n * (1 + r)"
    using Suc by (intro mult_right_mono) simp_all
  finally show ?case by (simp add: mult.commute)
qed

lemma bernoulli_down: "0 \<le> s \<Longrightarrow> s \<le> 1 \<Longrightarrow> 1 - of_nat n * s \<le> (1 - s :: rat) ^ n"
proof (induction n)
  case 0 then show ?case by simp
next
  case (Suc n)
  show ?case
  proof (cases "1 - of_nat n * s \<le> 0")
    case True
    then have "1 - of_nat (Suc n) * s \<le> 0" using Suc.prems by (simp add: algebra_simps)
    also have "0 \<le> (1 - s) ^ Suc n" using Suc.prems by simp
    finally show ?thesis .
  next
    case False
    have "1 - of_nat (Suc n) * s \<le> (1 - of_nat n * s) * (1 - s)"
      using Suc.prems by (simp add: algebra_simps)
    also have "\<dots> \<le> (1 - s) ^ n * (1 - s)"
      using Suc by (intro mult_right_mono) simp_all
    finally show ?thesis by (simp add: mult.commute)
  qed
qed

text \<open>The annuity factor of \<open>n\<close> periods lies between \<open>n / (1 + n r)\<close> and \<open>n\<close>.\<close>

lemma annuity_factor_bounds:
  fixes r :: rat
  assumes r: "0 < r"
  shows "of_nat n / (1 + of_nat n * r) \<le> (1 - (1 + r) powi (- int n)) / r"
    and "(1 - (1 + r) powi (- int n)) / r \<le> of_nat n"
proof -
  have q: "0 < (1 + r) ^ n" using r by simp
  have pw: "(1 + r) powi (- int n) = 1 / (1 + r) ^ n"
    by (simp add: power_int_minus field_simps)
  have d: "0 < 1 + of_nat n * r" using r by (simp add: add_pos_nonneg)
  have "1 / (1 + r) ^ n \<le> 1 / (1 + of_nat n * r)"
    using bernoulli_up [of r n] r d by (intro divide_left_mono) simp_all
  then have "1 - 1 / (1 + of_nat n * r) \<le> 1 - (1 + r) powi (- int n)" unfolding pw by simp
  moreover have "1 - 1 / (1 + of_nat n * r) = of_nat n / (1 + of_nat n * r) * r"
    using d by (simp add: field_simps)
  ultimately have "of_nat n / (1 + of_nat n * r) * r \<le> 1 - (1 + r) powi (- int n)" by simp
  then show "of_nat n / (1 + of_nat n * r) \<le> (1 - (1 + r) powi (- int n)) / r"
    using r by (simp add: pos_le_divide_eq)
  define s where "s = r / (1 + r)"
  have s: "0 \<le> s" "s \<le> 1" "s \<le> r" using r by (simp_all add: s_def field_simps)
  have "1 - s = 1 / (1 + r)" using r by (simp add: s_def field_simps)
  then have "(1 - s) ^ n = 1 / (1 + r) ^ n" by (simp add: power_divide)
  then have "1 - of_nat n * s \<le> (1 + r) powi (- int n)"
    using bernoulli_down [OF s(1,2), of n] unfolding pw by simp
  moreover have "of_nat n * s \<le> of_nat n * r" using s(3) by (intro mult_left_mono) simp_all
  ultimately have "1 - (1 + r) powi (- int n) \<le> of_nat n * r" by linarith
  then show "(1 - (1 + r) powi (- int n)) / r \<le> of_nat n"
    using r by (simp add: pos_divide_le_eq)
qed

text \<open>
  At a rate so small that \<open>payment * n * n * r\<close> stays under half a cent the formula of
  the specification gives the undiscounted sum, when that is a whole number of cents.
\<close>

lemma spec_presentValue_near_zero_rate:
  assumes a: "0 < a" and p: "0 < p" and n: "0 \<le> n"
    and whole: "p * of_int n * 100 = of_int c"
    and small: "p * of_int n * of_int n * (a / 12) < 1 / 200"
  shows "spec_presentValue p a n = p * of_int n"
proof -
  define r where "r = a / 12"
  define m where "m = nat n"
  have r: "0 < r" using a by (simp add: r_def)
  have nm: "(of_int n :: rat) = of_nat m" "- n = - int m" using n by (simp_all add: m_def)
  define f where "f = (1 - (1 + r) powi (- int m)) / r"
  have lo: "of_nat m / (1 + of_nat m * r) \<le> f" and hi: "f \<le> of_nat m"
    unfolding f_def using annuity_factor_bounds [OF r, of m] by simp_all
  have d: "0 < 1 + of_nat m * r" using r by (simp add: add_pos_nonneg)
  have "of_nat m - of_nat m * (of_nat m * r) \<le> of_nat m / (1 + of_nat m * r)"
  proof -
    have "(of_nat m - of_nat m * (of_nat m * r)) * (1 + of_nat m * r) \<le> of_nat m"
      using r by (simp add: algebra_simps)
    then show ?thesis using d by (simp add: pos_le_divide_eq)
  qed
  then have lo': "of_nat m - of_nat m * of_nat m * r \<le> f" using lo by (simp add: mult.assoc)
  have "p * (of_nat m - of_nat m * of_nat m * r) \<le> p * f"
    using lo' p by (intro mult_left_mono) simp_all
  then have l: "p * of_nat m - 1 / 200 < p * f"
    using small unfolding nm r_def [symmetric] by (simp add: algebra_simps)
  have h: "p * f \<le> p * of_nat m" using hi p by (intro mult_left_mono) simp_all
  have "\<lfloor>p * f * 100 + 1 / 2\<rfloor> = c"
  proof (rule floor_unique)
    show "of_int c \<le> p * f * 100 + 1 / 2" using l whole unfolding nm by linarith
    show "p * f * 100 + 1 / 2 < of_int c + 1" using h whole unfolding nm by linarith
  qed
  then have "round_cents (p * f) = of_int c / 100" by (simp add: round_cents_def)
  also have "\<dots> = p * of_nat m" using whole unfolding nm by simp
  finally have rc: "round_cents (p * f) = p * of_nat m" .
  have "r \<noteq> 0" using r by simp
  then show ?thesis
    unfolding spec_presentValue_def Let_def r_def [symmetric] nm
    using rc by (simp add: f_def)
qed

section \<open>Evaluation on the concrete leases\<close>

text \<open>
  The engine's arithmetic on the concrete leases, one rounding a step, each certified by
  \<open>fl_insideI\<close>, \<open>fl_normalI\<close> or \<open>fl_tieI\<close>.
\<close>

subsection \<open>The sample lease\<close>

lemma sample_rate: "fl (5 / 100) = Num (3602879701896397 / 72057594037927936)"
  by (rule fl_insideI [where e = "- 5"]) (simp_all)

lemma sample_fields:
  "monthlyPayment sample_lease = Num 5000"
  "discountRate sample_lease = Num (3602879701896397 / 72057594037927936)"
  using sample_rate by (simp_all add: sample_lease_def)

lemma sample_term:
  "calculateLeaseTerm 0 (leaseStartDate sample_lease) (leaseEndDate sample_lease) = Some 35"
  by (simp add: sample_lease_def calculateLeaseTerm_def daysInMonth_def leap_year_def previous_day_def)

lemma sample_length: "length (generateAmortizationSchedule 0 sample_lease) = 35"
  using length_schedule_eval [OF sample_term] by simp

lemma sample_monthly_rate:
  "js_div (discountRate sample_lease) (Num 12) = Num (4803839602528529 / 1152921504606846976)"
proof -
  have c1: "fl ((3602879701896397 / 72057594037927936) / 12) = Num (4803839602528529 / 1152921504606846976)"
    by (rule fl_insideI [where e = "- 8"]) (simp_all)
  show ?thesis
    by (rule monthly_rate_eval [OF sample_fields(2) c1])
qed

lemma sample_pv:
  "calculatePresentValue (monthlyPayment sample_lease) (discountRate sample_lease) (Some 35) = Num (1396067351354409 / 8589934592)"
proof -
  have c1: "fl ((3602879701896397 / 72057594037927936) / 12) = Num (4803839602528529 / 1152921504606846976)"
    by (rule fl_insideI [where e = "- 8"]) (simp_all)
  have c2: "fl (1 + (4803839602528529 / 1152921504606846976)) = Num (4522364625817873 / 4503599627370496)"
    by (rule fl_insideI [where e = "0"]) (simp_all)
  have c3: "fl ((4522364625817873 / 4503599627370496) powi (- 35)) = Num (3893648512479561 / 4503599627370496)"
    by (rule fl_insideI [where e = "- 1"]) (simp_all add: power_int_minus power_divide)
  have c4: "fl (1 - (3893648512479561 / 4503599627370496)) = Num (609951114890935 / 4503599627370496)"
    by (rule fl_insideI [where e = "- 3"]) (simp_all)
  have c5: "fl ((609951114890935 / 4503599627370496) / (4803839602528529 / 1152921504606846976)) = Num (4574633361682013 / 140737488355328)"
    by (rule fl_insideI [where e = "5"]) (simp_all)
  have c6: "fl (5000 * (4574633361682013 / 140737488355328)) = Num (5584269240334489 / 34359738368)"
    by (rule fl_insideI [where e = "17"]) (simp_all)
  have c7: "fl ((5584269240334489 / 34359738368) * 100) = Num (8725420688022639 / 536870912)"
    by (rule fl_insideI [where e = "23"]) (simp_all)
  have c8: "fl (of_int \<lfloor>(8725420688022639 / 536870912) + 1 / 2 :: rat\<rfloor> / 100) = Num (1396067351354409 / 8589934592)"
    by (rule fl_insideI [where e = "17"]) (simp_all)
  have c9: "round2 (Num (5584269240334489 / 34359738368)) = Num (1396067351354409 / 8589934592)"
    by (rule round2_eval [OF c7 c8])
  show ?thesis
    unfolding sample_fields by (rule presentValue_eval [OF c1 _ c2 _ c3 c4 c5 c6 c9]) simp_all
qed

lemma sample_metrics:
  "calculateLeaseMetrics 0 sample_lease =
     \<lparr>initialLeasePayment = Num 5000, initialRightOfUseAsset = Num (1391772384058409 / 8589934592),
      initialLeaseLiability = Num (1396067351354409 / 8589934592), monthlyInterestExpense = Num 0,
      monthlyAmortizationExpense = Num (18517 / 4), monthlyLeaseLiabilityReduction = Num 0,
      totalLeaseTerm = Some 35, presentValueOfLeasePayments = Num (1396067351354409 / 8589934592)\<rparr>"
proof -
  have c1: "fl ((1396067351354409 / 8589934592) + 500) = Num (1400362318650409 / 8589934592)"
    by (rule fl_insideI [where e = "17"]) (simp_all)
  have c2: "fl ((1400362318650409 / 8589934592) + 1000) = Num (1408952253242409 / 8589934592)"
    by (rule fl_insideI [where e = "17"]) (simp_all)
  have c3: "fl ((1408952253242409 / 8589934592) - 2000) = Num (1391772384058409 / 8589934592)"
    by (rule fl_insideI [where e = "17"]) (simp_all)
  have c4: "fl ((1391772384058409 / 8589934592) * 100) = Num 16202363"
    by (rule fl_insideI [where e = "23"]) (simp_all)
  have c5: "fl (of_int \<lfloor>16202363 + 1 / 2 :: rat\<rfloor> / 100) = Num (1391772384058409 / 8589934592)"
    by (rule fl_insideI [where e = "17"]) (simp_all)
  have c6: "round2 (Num (1391772384058409 / 8589934592)) = Num (1391772384058409 / 8589934592)"
    by (rule round2_eval [OF c4 c5])
  have c7: "fl ((1396067351354409 / 8589934592) * 100) = Num 16252363"
    by (rule fl_insideI [where e = "23"]) (simp_all)
  have c8: "fl (of_int \<lfloor>16252363 + 1 / 2 :: rat\<rfloor> / 100) = Num (1396067351354409 / 8589934592)"
    by (rule fl_insideI [where e = "17"]) (simp_all)
  have c9: "round2 (Num (1396067351354409 / 8589934592)) = Num (1396067351354409 / 8589934592)"
    by (rule round2_eval [OF c7 c8])
  have opt: "or_zero (initialDirectCosts sample_lease) = Num 500" "or_zero (prepaidRent sample_lease) = Num 1000" "or_zero (leaseIncentives sample_lease) = Num 2000"
    by (simp_all add: sample_lease_def)
  have c10: "fl ((1391772384058409 / 8589934592) / of_int 35) = Num (636238804140987 / 137438953472)"
    by (rule fl_insideI [where e = "12"]) (simp_all)
  have c11: "fl ((636238804140987 / 137438953472) * 100) = Num (3976492525881169 / 8589934592)"
    by (rule fl_tieI [where e = "18" and k = "7952985051762338"]) (simp_all)
  have c12: "fl (of_int \<lfloor>(3976492525881169 / 8589934592) + 1 / 2 :: rat\<rfloor> / 100) = Num (18517 / 4)"
    by (rule fl_insideI [where e = "12"]) (simp_all)
  have c13: "round2 (Num (636238804140987 / 137438953472)) = Num (18517 / 4)"
    by (rule round2_eval [OF c11 c12])
  have c14: "js_div (Num (1391772384058409 / 8589934592)) (Num (of_int 35)) = Num (636238804140987 / 137438953472)"
    by (rule js_div_of_int [OF _ c10]) simp
  show ?thesis
    using metrics_eval [OF sample_term sample_pv opt c1 c2 c3 c14 c6 c9 c13]
    by (simp add: sample_fields)
qed

lemma sample_liability_0:
  "currentLeaseLiability (state_after 0 sample_lease 0) = Num (1396067351354409 / 8589934592)"
proof -
  have c1: "fl ((1396067351354409 / 8589934592) * 100) = Num 16252363"
    by (rule fl_insideI [where e = "23"]) (simp_all)
  have c2: "fl (of_int \<lfloor>16252363 + 1 / 2 :: rat\<rfloor> / 100) = Num (1396067351354409 / 8589934592)"
    by (rule fl_insideI [where e = "17"]) (simp_all)
  have c3: "round2 (Num (1396067351354409 / 8589934592)) = Num (1396067351354409 / 8589934592)"
    by (rule round2_eval [OF c1 c2])
  show ?thesis
    by (rule initial_liability_eval [OF sample_term sample_pv c3])
qed

lemma sample_liability_1:
  "currentLeaseLiability (state_after 0 sample_lease 1) = Num (1358934625691719 / 8589934592)"
proof -
  have c1: "fl ((1396067351354409 / 8589934592) * (4803839602528529 / 1152921504606846976)) = Num (2978277016222739 / 4398046511104)"
    by (rule fl_insideI [where e = "9"]) (simp_all)
  have c2: "fl (5000 - (2978277016222739 / 4398046511104)) = Num (4752988884824315 / 1099511627776)"
    by (rule fl_insideI [where e = "12"]) (simp_all)
  have c3: "fl ((1396067351354409 / 8589934592) - (4752988884824315 / 1099511627776)) = Num (1358934625691719 / 8589934592)"
    by (rule fl_insideI [where e = "17"]) (simp_all)
  have s1: "currentLeaseLiability (state_after 0 sample_lease 1) = Num (1358934625691719 / 8589934592)"
    by (rule liability_next [OF sample_liability_0 sample_fields(1) sample_monthly_rate c1 c2 c3]) simp_all
  show ?thesis
    by (rule s1)
qed

lemma sample_ending_0:
  "endingLeaseLiability (generateAmortizationSchedule 0 sample_lease ! 0) = Num (2717869220602839 / 17179869184)"
proof -
  have c1: "fl ((1358934625691719 / 8589934592) * 100) = Num (2123335352643311 / 134217728)"
    by (rule fl_insideI [where e = "23"]) (simp_all)
  have c2: "fl (of_int \<lfloor>(2123335352643311 / 134217728) + 1 / 2 :: rat\<rfloor> / 100) = Num (2717869220602839 / 17179869184)"
    by (rule fl_insideI [where e = "17"]) (simp_all)
  have c3: "round2 (Num (1358934625691719 / 8589934592)) = Num (2717869220602839 / 17179869184)"
    by (rule round2_eval [OF c1 c2])
  show ?thesis
    by (rule row_ending_eval [OF _ sample_liability_1 c3]) (simp_all add: sample_length)
qed

lemma sample_asset_0: "currentRightOfUseAsset (state_after 0 sample_lease 0) = Num (1391772384058409 / 8589934592)"
  by (simp add: initial_state_metrics sample_metrics)

lemma sample_amortization: "monthlyAmortizationExpense (calculateLeaseMetrics 0 sample_lease) = Num (18517 / 4)"
  by (simp add: sample_metrics)

lemma sample_asset_8:
  "currentRightOfUseAsset (state_after 0 sample_lease 8) = Num (1073652746378281 / 8589934592)"
proof -
  have c1: "fl ((1391772384058409 / 8589934592) - (18517 / 4)) = Num (1352007429348393 / 8589934592)"
    by (rule fl_insideI [where e = "17"]) (simp_all)
  have s1: "currentRightOfUseAsset (state_after 0 sample_lease 1) = Num (1352007429348393 / 8589934592)"
    by (rule asset_next [OF sample_asset_0 sample_amortization c1]) simp_all
  have c3: "fl ((1352007429348393 / 8589934592) - (18517 / 4)) = Num (1312242474638377 / 8589934592)"
    by (rule fl_insideI [where e = "17"]) (simp_all)
  have s2: "currentRightOfUseAsset (state_after 0 sample_lease 2) = Num (1312242474638377 / 8589934592)"
    by (rule asset_next [OF s1 sample_amortization c3]) simp_all
  have c5: "fl ((1312242474638377 / 8589934592) - (18517 / 4)) = Num (1272477519928361 / 8589934592)"
    by (rule fl_insideI [where e = "17"]) (simp_all)
  have s3: "currentRightOfUseAsset (state_after 0 sample_lease 3) = Num (1272477519928361 / 8589934592)"
    by (rule asset_next [OF s2 sample_amortization c5]) simp_all
  have c7: "fl ((1272477519928361 / 8589934592) - (18517 / 4)) = Num (1232712565218345 / 8589934592)"
    by (rule fl_insideI [where e = "17"]) (simp_all)
  have s4: "currentRightOfUseAsset (state_after 0 sample_lease 4) = Num (1232712565218345 / 8589934592)"
    by (rule asset_next [OF s3 sample_amortization c7]) simp_all
  have c9: "fl ((1232712565218345 / 8589934592) - (18517 / 4)) = Num (1192947610508329 / 8589934592)"
    by (rule fl_insideI [where e = "17"]) (simp_all)
  have s5: "currentRightOfUseAsset (state_after 0 sample_lease 5) = Num (1192947610508329 / 8589934592)"
    by (rule asset_next [OF s4 sample_amortization c9]) simp_all
  have c11: "fl ((1192947610508329 / 8589934592) - (18517 / 4)) = Num (1153182655798313 / 8589934592)"
    by (rule fl_insideI [where e = "17"]) (simp_all)
  have s6: "currentRightOfUseAsset (state_after 0 sample_lease 6) = Num (1153182655798313 / 8589934592)"
    by (rule asset_next [OF s5 sample_amortization c11]) simp_all
  have c13: "fl ((1153182655798313 / 8589934592) - (18517 / 4)) = Num (1113417701088297 / 8589934592)"
    by (rule fl_insideI [where e = "16"]) (simp_all)
  have s7: "currentRightOfUseAsset (state_after 0 sample_lease 7) = Num (1113417701088297 / 8589934592)"
    by (rule asset_next [OF s6 sample_amortization c13]) simp_all
  have c15: "fl ((1113417701088297 / 8589934592) - (18517 / 4)) = Num (1073652746378281 / 8589934592)"
    by (rule fl_insideI [where e = "16"]) (simp_all)
  have s8: "currentRightOfUseAsset (state_after 0 sample_lease 8) = Num (1073652746378281 / 8589934592)"
    by (rule asset_next [OF s7 sample_amortization c15]) simp_all
  show ?thesis
    by (rule s8)
qed

lemma sample_asset_16:
  "currentRightOfUseAsset (state_after 0 sample_lease 16) = Num (755533108698153 / 8589934592)"
proof -
  have c1: "fl ((1073652746378281 / 8589934592) - (18517 / 4)) = Num (1033887791668265 / 8589934592)"
    by (rule fl_insideI [where e = "16"]) (simp_all)
  have s9: "currentRightOfUseAsset (state_after 0 sample_lease 9) = Num (1033887791668265 / 8589934592)"
    by (rule asset_next [OF sample_asset_8 sample_amortization c1]) simp_all
  have c3: "fl ((1033887791668265 / 8589934592) - (18517 / 4)) = Num (994122836958249 / 8589934592)"
    by (rule fl_insideI [where e = "16"]) (simp_all)
  have s10: "currentRightOfUseAsset (state_after 0 sample_lease 10) = Num (994122836958249 / 8589934592)"
    by (rule asset_next [OF s9 sample_amortization c3]) simp_all
  have c5: "fl ((994122836958249 / 8589934592) - (18517 / 4)) = Num (954357882248233 / 8589934592)"
    by (rule fl_insideI [where e = "16"]) (simp_all)
  have s11: "currentRightOfUseAsset (state_after 0 sample_lease 11) = Num (954357882248233 / 8589934592)"
    by (rule asset_next [OF s10 sample_amortization c5]) simp_all
  have c7: "fl ((954357882248233 / 8589934592) - (18517 / 4)) = Num (914592927538217 / 8589934592)"
    by (rule fl_insideI [where e = "16"]) (simp_all)
  have s12: "currentRightOfUseAsset (state_after 0 sample_lease 12) = Num (914592927538217 / 8589934592)"
    by (rule asset_next [OF s11 sample_amortization c7]) simp_all
  have c9: "fl ((914592927538217 / 8589934592) - (18517 / 4)) = Num (874827972828201 / 8589934592)"
    by (rule fl_insideI [where e = "16"]) (simp_all)
  have s13: "currentRightOfUseAsset (state_after 0 sample_lease 13) = Num (874827972828201 / 8589934592)"
    by (rule asset_next [OF s12 sample_amortization c9]) simp_all
  have c11: "fl ((874827972828201 / 8589934592) - (18517 / 4)) = Num (835063018118185 / 8589934592)"
    by (rule fl_insideI [where e = "16"]) (simp_all)
  have s14: "currentRightOfUseAsset (state_after 0 sample_lease 14) = Num (835063018118185 / 8589934592)"
    by (rule asset_next [OF s13 sample_amortization c11]) simp_all
  have c13: "fl ((835063018118185 / 8589934592) - (18517 / 4)) = Num (795298063408169 / 8589934592)"
    by (rule fl_insideI [where e = "16"]) (simp_all)
  have s15: "currentRightOfUseAsset (state_after 0 sample_lease 15) = Num (795298063408169 / 8589934592)"
    by (rule asset_next [OF s14 sample_amortization c13]) simp_all
  have c15: "fl ((795298063408169 / 8589934592) - (18517 / 4)) = Num (755533108698153 / 8589934592)"
    by (rule fl_insideI [where e = "16"]) (simp_all)
  have s16: "currentRightOfUseAsset (state_after 0 sample_lease 16) = Num (755533108698153 / 8589934592)"
    by (rule asset_next [OF s15 sample_amortization c15]) simp_all
  show ?thesis
    by (rule s16)
qed

lemma sample_asset_21:
  "currentRightOfUseAsset (state_after 0 sample_lease 21) = Num (556708335148073 / 8589934592)"
proof -
  have c1: "fl ((755533108698153 / 8589934592) - (18517 / 4)) = Num (715768153988137 / 8589934592)"
    by (rule fl_insideI [where e = "16"]) (simp_all)
  have s17: "currentRightOfUseAsset (state_after 0 sample_lease 17) = Num (715768153988137 / 8589934592)"
    by (rule asset_next [OF sample_asset_16 sample_amortization c1]) simp_all
  have c3: "fl ((715768153988137 / 8589934592) - (18517 / 4)) = Num (676003199278121 / 8589934592)"
    by (rule fl_insideI [where e = "16"]) (simp_all)
  have s18: "currentRightOfUseAsset (state_after 0 sample_lease 18) = Num (676003199278121 / 8589934592)"
    by (rule asset_next [OF s17 sample_amortization c3]) simp_all
  have c5: "fl ((676003199278121 / 8589934592) - (18517 / 4)) = Num (636238244568105 / 8589934592)"
    by (rule fl_insideI [where e = "16"]) (simp_all)
  have s19: "currentRightOfUseAsset (state_after 0 sample_lease 19) = Num (636238244568105 / 8589934592)"
    by (rule asset_next [OF s18 sample_amortization c5]) simp_all
  have c7: "fl ((636238244568105 / 8589934592) - (18517 / 4)) = Num (596473289858089 / 8589934592)"
    by (rule fl_insideI [where e = "16"]) (simp_all)
  have s20: "currentRightOfUseAsset (state_after 0 sample_lease 20) = Num (596473289858089 / 8589934592)"
    by (rule asset_next [OF s19 sample_amortization c7]) simp_all
  have c9: "fl ((596473289858089 / 8589934592) - (18517 / 4)) = Num (556708335148073 / 8589934592)"
    by (rule fl_insideI [where e = "15"]) (simp_all)
  have s21: "currentRightOfUseAsset (state_after 0 sample_lease 21) = Num (556708335148073 / 8589934592)"
    by (rule asset_next [OF s20 sample_amortization c9]) simp_all
  show ?thesis
    by (rule s21)
qed

lemma sample_balance_20:
  "rightOfUseAssetBalance (generateAmortizationSchedule 0 sample_lease ! 20) = Num (8907333362369167 / 137438953472)"
proof -
  have c1: "fl ((556708335148073 / 8589934592) * 100) = Num 6480938"
    by (rule fl_tieI [where e = "22" and k = "6958854189350912"]) (simp_all)
  have c2: "fl (of_int \<lfloor>6480938 + 1 / 2 :: rat\<rfloor> / 100) = Num (8907333362369167 / 137438953472)"
    by (rule fl_insideI [where e = "15"]) (simp_all)
  have c3: "round2 (Num (556708335148073 / 8589934592)) = Num (8907333362369167 / 137438953472)"
    by (rule round2_eval [OF c1 c2])
  show ?thesis
    by (rule row_balance_eval [OF _ sample_asset_21 c3]) (simp_all add: sample_length)
qed

subsection \<open>The sample lease ended in its first month\<close>

lemma same_month_rate: "fl (5 / 100) = Num (3602879701896397 / 72057594037927936)"
  by (rule fl_insideI [where e = "- 5"]) (simp_all)

lemma same_month_fields:
  "monthlyPayment same_month_lease = Num 5000"
  "discountRate same_month_lease = Num (3602879701896397 / 72057594037927936)"
  using same_month_rate by (simp_all add: same_month_lease_def sample_lease_def)

lemma same_month_term:
  "calculateLeaseTerm 0 (leaseStartDate same_month_lease) (leaseEndDate same_month_lease) = Some 0"
  by (simp add: same_month_lease_def sample_lease_def calculateLeaseTerm_def daysInMonth_def leap_year_def previous_day_def)

lemma same_month_length: "length (generateAmortizationSchedule 0 same_month_lease) = 0"
  using length_schedule_eval [OF same_month_term] by simp

lemma same_month_pv:
  "calculatePresentValue (monthlyPayment same_month_lease) (discountRate same_month_lease) (Some 0) = Num 0"
proof -
  have c1: "fl ((3602879701896397 / 72057594037927936) / 12) = Num (4803839602528529 / 1152921504606846976)"
    by (rule fl_insideI [where e = "- 8"]) (simp_all)
  have c2: "fl (1 + (4803839602528529 / 1152921504606846976)) = Num (4522364625817873 / 4503599627370496)"
    by (rule fl_insideI [where e = "0"]) (simp_all)
  have c3: "fl ((4522364625817873 / 4503599627370496) powi (- 0)) = Num 1"
    by (rule fl_normalI [where e = "0"]) (simp_all add: power_int_minus power_divide)
  have c4: "fl (1 - 1) = Num 0"
    by (simp add: fl_zero)
  have c5: "fl (0 / (4803839602528529 / 1152921504606846976)) = Num 0"
    by (simp add: fl_zero)
  have c6: "fl (5000 * 0) = Num 0"
    by (simp add: fl_zero)
  have c7: "fl (0 * 100) = Num 0"
    by (simp add: fl_zero)
  have c8: "fl (of_int \<lfloor>0 + 1 / 2 :: rat\<rfloor> / 100) = Num 0"
    by (simp add: fl_zero)
  have c9: "round2 (Num 0) = Num 0"
    by (rule round2_eval [OF c7 c8])
  show ?thesis
    unfolding same_month_fields by (rule presentValue_eval [OF c1 _ c2 _ c3 c4 c5 c6 c9]) simp_all
qed

lemma same_month_metrics:
  "calculateLeaseMetrics 0 same_month_lease =
     \<lparr>initialLeasePayment = Num 5000, initialRightOfUseAsset = Num (- 500),
      initialLeaseLiability = Num 0, monthlyInterestExpense = Num 0,
      monthlyAmortizationExpense = NegInfinity, monthlyLeaseLiabilityReduction = Num 0,
      totalLeaseTerm = Some 0, presentValueOfLeasePayments = Num 0\<rparr>"
proof -
  have c1: "fl (0 + 500) = Num 500"
    by (rule fl_insideI [where e = "8"]) (simp_all)
  have c2: "fl (500 + 1000) = Num 1500"
    by (rule fl_insideI [where e = "10"]) (simp_all)
  have c3: "fl (1500 - 2000) = Num (- 500)"
    by (rule fl_insideI [where e = "8"]) (simp_all)
  have c4: "fl ((- 500) * 100) = Num (- 50000)"
    by (rule fl_insideI [where e = "15"]) (simp_all)
  have c5: "fl (of_int \<lfloor>(- 50000) + 1 / 2 :: rat\<rfloor> / 100) = Num (- 500)"
    by (rule fl_insideI [where e = "8"]) (simp_all)
  have c6: "round2 (Num (- 500)) = Num (- 500)"
    by (rule round2_eval [OF c4 c5])
  have c7: "fl (0 * 100) = Num 0"
    by (simp add: fl_zero)
  have c8: "fl (of_int \<lfloor>0 + 1 / 2 :: rat\<rfloor> / 100) = Num 0"
    by (simp add: fl_zero)
  have c9: "round2 (Num 0) = Num 0"
    by (rule round2_eval [OF c7 c8])
  have opt: "or_zero (initialDirectCosts same_month_lease) = Num 500" "or_zero (prepaidRent same_month_lease) = Num 1000" "or_zero (leaseIncentives same_month_lease) = Num 2000"
    by (simp_all add: same_month_lease_def sample_lease_def)
  have c10: "js_div (Num (- 500)) (Num (of_int 0)) = NegInfinity"
    by (simp add: signed_infinity_def)
  have c11: "round2 NegInfinity = NegInfinity"
    by (simp add: round2_def signed_infinity_def)
  show ?thesis
    using metrics_eval [OF same_month_term same_month_pv opt c1 c2 c3 c10 c6 c9 c11]
    by (simp add: same_month_fields)
qed

subsection \<open>The sample lease at a rate of 200%\<close>

lemma rate_200_fields:
  "monthlyPayment rate_200_lease = Num 5000"
  "discountRate rate_200_lease = Num 2"
  by (simp_all add: rate_200_lease_def sample_lease_def)

lemma rate_200_term:
  "calculateLeaseTerm 0 (leaseStartDate rate_200_lease) (leaseEndDate rate_200_lease) = Some 2"
  by (simp add: rate_200_lease_def sample_lease_def calculateLeaseTerm_def daysInMonth_def leap_year_def previous_day_def)

lemma rate_200_length: "length (generateAmortizationSchedule 0 rate_200_lease) = 2"
  using length_schedule_eval [OF rate_200_term] by simp

lemma rate_200_pv:
  "calculatePresentValue (monthlyPayment rate_200_lease) (discountRate rate_200_lease) (Some 2) = Num (1093901369695273 / 137438953472)"
proof -
  have c1: "fl (2 / 12) = Num (6004799503160661 / 36028797018963968)"
    by (rule fl_insideI [where e = "- 3"]) (simp_all)
  have c2: "fl (1 + (6004799503160661 / 36028797018963968)) = Num (5254199565265579 / 4503599627370496)"
    by (rule fl_insideI [where e = "0"]) (simp_all)
  have c3: "fl ((5254199565265579 / 4503599627370496) powi (- 2)) = Num (206797942073135 / 281474976710656)"
    by (rule fl_insideI [where e = "- 1"]) (simp_all add: power_int_minus power_divide)
  have c4: "fl (1 - (206797942073135 / 281474976710656)) = Num (74677034637521 / 281474976710656)"
    by (rule fl_insideI [where e = "- 2"]) (simp_all)
  have c5: "fl ((74677034637521 / 281474976710656) / (6004799503160661 / 36028797018963968)) = Num (224031103912563 / 140737488355328)"
    by (rule fl_insideI [where e = "0"]) (simp_all)
  have c6: "fl (5000 * (224031103912563 / 140737488355328)) = Num (2187803749146123 / 274877906944)"
    by (rule fl_insideI [where e = "12"]) (simp_all)
  have c7: "fl ((2187803749146123 / 274877906944) * 100) = Num (3418443358040817 / 4294967296)"
    by (rule fl_insideI [where e = "19"]) (simp_all)
  have c8: "fl (of_int \<lfloor>(3418443358040817 / 4294967296) + 1 / 2 :: rat\<rfloor> / 100) = Num (1093901369695273 / 137438953472)"
    by (rule fl_insideI [where e = "12"]) (simp_all)
  have c9: "round2 (Num (2187803749146123 / 274877906944)) = Num (1093901369695273 / 137438953472)"
    by (rule round2_eval [OF c7 c8])
  show ?thesis
    unfolding rate_200_fields by (rule presentValue_eval [OF c1 _ c2 _ c3 c4 c5 c6 c9]) simp_all
qed

lemma rate_200_metrics:
  "calculateLeaseMetrics 0 rate_200_lease =
     \<lparr>initialLeasePayment = Num 5000, initialRightOfUseAsset = Num (1025181892959273 / 137438953472),
      initialLeaseLiability = Num (1093901369695273 / 137438953472), monthlyInterestExpense = Num 0,
      monthlyAmortizationExpense = Num (1025181892959273 / 274877906944), monthlyLeaseLiabilityReduction = Num 0,
      totalLeaseTerm = Some 2, presentValueOfLeasePayments = Num (1093901369695273 / 137438953472)\<rparr>"
proof -
  have c1: "fl ((1093901369695273 / 137438953472) + 500) = Num (1162620846431273 / 137438953472)"
    by (rule fl_insideI [where e = "13"]) (simp_all)
  have c2: "fl ((1162620846431273 / 137438953472) + 1000) = Num (1300059799903273 / 137438953472)"
    by (rule fl_insideI [where e = "13"]) (simp_all)
  have c3: "fl ((1300059799903273 / 137438953472) - 2000) = Num (1025181892959273 / 137438953472)"
    by (rule fl_insideI [where e = "12"]) (simp_all)
  have c4: "fl ((1025181892959273 / 137438953472) * 100) = Num 745918"
    by (rule fl_insideI [where e = "19"]) (simp_all)
  have c5: "fl (of_int \<lfloor>745918 + 1 / 2 :: rat\<rfloor> / 100) = Num (1025181892959273 / 137438953472)"
    by (rule fl_insideI [where e = "12"]) (simp_all)
  have c6: "round2 (Num (1025181892959273 / 137438953472)) = Num (1025181892959273 / 137438953472)"
    by (rule round2_eval [OF c4 c5])
  have c7: "fl ((1093901369695273 / 137438953472) * 100) = Num 795918"
    by (rule fl_insideI [where e = "19"]) (simp_all)
  have c8: "fl (of_int \<lfloor>795918 + 1 / 2 :: rat\<rfloor> / 100) = Num (1093901369695273 / 137438953472)"
    by (rule fl_insideI [where e = "12"]) (simp_all)
  have c9: "round2 (Num (1093901369695273 / 137438953472)) = Num (1093901369695273 / 137438953472)"
    by (rule round2_eval [OF c7 c8])
  have opt: "or_zero (initialDirectCosts rate_200_lease) = Num 500" "or_zero (prepaidRent rate_200_lease) = Num 1000" "or_zero (leaseIncentives rate_200_lease) = Num 2000"
    by (simp_all add: rate_200_lease_def sample_lease_def)
  have c10: "fl ((1025181892959273 / 137438953472) / of_int 2) = Num (1025181892959273 / 274877906944)"
    by (rule fl_insideI [where e = "11"]) (simp_all)
  have c11: "fl ((1025181892959273 / 274877906944) * 100) = Num 372959"
    by (rule fl_insideI [where e = "18"]) (simp_all)
  have c12: "fl (of_int \<lfloor>372959 + 1 / 2 :: rat\<rfloor> / 100) = Num (1025181892959273 / 274877906944)"
    by (rule fl_insideI [where e = "11"]) (simp_all)
  have c13: "round2 (Num (1025181892959273 / 274877906944)) = Num (1025181892959273 / 274877906944)"
    by (rule round2_eval [OF c11 c12])
  have c14: "js_div (Num (1025181892959273 / 137438953472)) (Num (of_int 2)) = Num (1025181892959273 / 274877906944)"
    by (rule js_div_of_int [OF _ c10]) simp
  show ?thesis
    using metrics_eval [OF rate_200_term rate_200_pv opt c1 c2 c3 c14 c6 c9 c13]
    by (simp add: rate_200_fields)
qed

subsection \<open>The lease of 41 months at a rate of 100%\<close>














subsection \<open>The lease of two months\<close>

lemma half_cent_rate: "fl (15 / 100) = Num (5404319552844595 / 36028797018963968)"
  by (rule fl_insideI [where e = "- 3"]) (simp_all)

lemma half_cent_fields:
  "monthlyPayment half_cent_lease = Num 9565"
  "discountRate half_cent_lease = Num (5404319552844595 / 36028797018963968)"
  using half_cent_rate by (simp_all add: half_cent_lease_def)

lemma half_cent_term:
  "calculateLeaseTerm 0 (leaseStartDate half_cent_lease) (leaseEndDate half_cent_lease) = Some 2"
  by (simp add: half_cent_lease_def calculateLeaseTerm_def daysInMonth_def leap_year_def previous_day_def)

lemma half_cent_length: "length (generateAmortizationSchedule 0 half_cent_lease) = 2"
  using length_schedule_eval [OF half_cent_term] by simp

lemma half_cent_monthly_rate:
  "js_div (discountRate half_cent_lease) (Num 12) = Num (7205759403792793 / 576460752303423488)"
proof -
  have c1: "fl ((5404319552844595 / 36028797018963968) / 12) = Num (7205759403792793 / 576460752303423488)"
    by (rule fl_insideI [where e = "- 7"]) (simp_all)
  show ?thesis
    by (rule monthly_rate_eval [OF half_cent_fields(2) c1])
qed

lemma half_cent_pv:
  "calculatePresentValue (monthlyPayment half_cent_lease) (discountRate half_cent_lease) (Some 2) = Num (5161437434268877 / 274877906944)"
proof -
  have c1: "fl ((5404319552844595 / 36028797018963968) / 12) = Num (7205759403792793 / 576460752303423488)"
    by (rule fl_insideI [where e = "- 7"]) (simp_all)
  have c2: "fl (1 + (7205759403792793 / 576460752303423488)) = Num (4559894622712627 / 4503599627370496)"
    by (rule fl_insideI [where e = "0"]) (simp_all)
  have c3: "fl ((4559894622712627 / 4503599627370496) powi (- 2)) = Num (8786172112535033 / 9007199254740992)"
    by (rule fl_insideI [where e = "- 1"]) (simp_all add: power_int_minus power_divide)
  have c4: "fl (1 - (8786172112535033 / 9007199254740992)) = Num (221027142205959 / 9007199254740992)"
    by (rule fl_insideI [where e = "- 6"]) (simp_all)
  have c5: "fl ((221027142205959 / 9007199254740992) / (7205759403792793 / 576460752303423488)) = Num (8841085688238361 / 4503599627370496)"
    by (rule fl_insideI [where e = "0"]) (simp_all)
  have c6: "fl (9565 * (8841085688238361 / 4503599627370496)) = Num (645179631103515 / 34359738368)"
    by (rule fl_insideI [where e = "14"]) (simp_all)
  have c7: "fl ((645179631103515 / 34359738368) * 100) = Num (4032372694396969 / 2147483648)"
    by (rule fl_tieI [where e = "20" and k = "8064745388793938"]) (simp_all)
  have c8: "fl (of_int \<lfloor>(4032372694396969 / 2147483648) + 1 / 2 :: rat\<rfloor> / 100) = Num (5161437434268877 / 274877906944)"
    by (rule fl_insideI [where e = "14"]) (simp_all)
  have c9: "round2 (Num (645179631103515 / 34359738368)) = Num (5161437434268877 / 274877906944)"
    by (rule round2_eval [OF c7 c8])
  show ?thesis
    unfolding half_cent_fields by (rule presentValue_eval [OF c1 _ c2 _ c3 c4 c5 c6 c9]) simp_all
qed

lemma half_cent_liability_0:
  "currentLeaseLiability (state_after 0 half_cent_lease 0) = Num (5161437434268877 / 274877906944)"
proof -
  have c1: "fl ((5161437434268877 / 274877906944) * 100) = Num 1877720"
    by (rule fl_insideI [where e = "20"]) (simp_all)
  have c2: "fl (of_int \<lfloor>1877720 + 1 / 2 :: rat\<rfloor> / 100) = Num (5161437434268877 / 274877906944)"
    by (rule fl_insideI [where e = "14"]) (simp_all)
  have c3: "round2 (Num (5161437434268877 / 274877906944)) = Num (5161437434268877 / 274877906944)"
    by (rule round2_eval [OF c1 c2])
  show ?thesis
    by (rule initial_liability_eval [OF half_cent_term half_cent_pv c3])
qed

lemma half_cent_row_0:
  "interestExpense (generateAmortizationSchedule 0 half_cent_lease ! 0) = Num (8258475816690647 / 35184372088832) \<and>
   principalReduction (generateAmortizationSchedule 0 half_cent_lease ! 0) = Num (1282345293190267 / 137438953472)"
proof -
  have c1: "fl ((5161437434268877 / 274877906944) * (7205759403792793 / 576460752303423488)) = Num (8258299894830203 / 35184372088832)"
    by (rule fl_insideI [where e = "7"]) (simp_all)
  have c2: "fl ((8258299894830203 / 35184372088832) * 100) = Num (46943 / 2)"
    by (rule fl_insideI [where e = "14"]) (simp_all)
  have c3: "fl (of_int \<lfloor>(46943 / 2) + 1 / 2 :: rat\<rfloor> / 100) = Num (8258475816690647 / 35184372088832)"
    by (rule fl_insideI [where e = "7"]) (simp_all)
  have c4: "round2 (Num (8258299894830203 / 35184372088832)) = Num (8258475816690647 / 35184372088832)"
    by (rule round2_eval [OF c2 c3])
  have c5: "fl (9565 - (8258299894830203 / 35184372088832)) = Num (2564689211990999 / 274877906944)"
    by (rule fl_insideI [where e = "13"]) (simp_all)
  have c6: "fl ((2564689211990999 / 274877906944) * 100) = Num (1866057 / 2)"
    by (rule fl_insideI [where e = "19"]) (simp_all)
  have c7: "fl (of_int \<lfloor>(1866057 / 2) + 1 / 2 :: rat\<rfloor> / 100) = Num (1282345293190267 / 137438953472)"
    by (rule fl_insideI [where e = "13"]) (simp_all)
  have c8: "round2 (Num (2564689211990999 / 274877906944)) = Num (1282345293190267 / 137438953472)"
    by (rule round2_eval [OF c6 c7])
  have c9: "interestExpense (generateAmortizationSchedule 0 half_cent_lease ! 0) = Num (8258475816690647 / 35184372088832)"
    by (rule row_interest_eval [OF _ half_cent_liability_0 half_cent_monthly_rate c1 c4]) (simp add: half_cent_length)
  have c10: "principalReduction (generateAmortizationSchedule 0 half_cent_lease ! 0) = Num (1282345293190267 / 137438953472)"
    by (rule row_principal_eval [OF _ half_cent_liability_0 half_cent_fields(1) half_cent_monthly_rate c1 c5 c8]) (simp add: half_cent_length)
  show ?thesis
    using c9 c10 by simp
qed

lemma half_cent_sums:
  "fl (8258475816690647 / 35184372088832) = Num (8258475816690647 / 35184372088832)"
  "fl ((8258475816690647 / 35184372088832) + (1282345293190267 / 137438953472)) = Num (5258419857396859 / 549755813888)"
  "fl 9565 = Num 9565"
  "fl ((5258419857396859 / 549755813888) - 9565) = Num (5497558139 / 549755813888)"
  "fl (1 / 100) = Num (5764607523034235 / 576460752303423488)"
proof -
  have c1: "fl (8258475816690647 / 35184372088832) = Num (8258475816690647 / 35184372088832)"
    by (rule fl_insideI [where e = "7"]) (simp_all)
  have c2: "fl ((8258475816690647 / 35184372088832) + (1282345293190267 / 137438953472)) = Num (5258419857396859 / 549755813888)"
    by (rule fl_insideI [where e = "13"]) (simp_all)
  have c3: "fl 9565 = Num 9565"
    by (rule fl_insideI [where e = "13"]) (simp_all)
  have c4: "fl ((5258419857396859 / 549755813888) - 9565) = Num (5497558139 / 549755813888)"
    by (rule fl_insideI [where e = "- 7"]) (simp_all)
  have c5: "fl (1 / 100) = Num (5764607523034235 / 576460752303423488)"
    by (rule fl_insideI [where e = "- 7"]) (simp_all)
  show "fl (8258475816690647 / 35184372088832) = Num (8258475816690647 / 35184372088832)" by (rule c1)
  show "fl ((8258475816690647 / 35184372088832) + (1282345293190267 / 137438953472)) = Num (5258419857396859 / 549755813888)" by (rule c2)
  show "fl 9565 = Num 9565" by (rule c3)
  show "fl ((5258419857396859 / 549755813888) - 9565) = Num (5497558139 / 549755813888)" by (rule c4)
  show "fl (1 / 100) = Num (5764607523034235 / 576460752303423488)" by (rule c5)
qed

subsection \<open>Present values at rates near zero\<close>

lemma pv_1e17_36:
  "calculatePresentValue (Num 1000) (fl (1 / 10 ^ 17)) (Some 36) = Num 0"
proof -
  have rate: "fl (1 / 10 ^ 17) = Num (6490371073168535 / 649037107316853453566312041152512)"
    by (rule fl_insideI [where e = "- 57"]) (simp_all)
  have c2: "fl ((6490371073168535 / 649037107316853453566312041152512) / 12) = Num (8653828097558047 / 10384593717069655257060992658440192)"
    by (rule fl_insideI [where e = "- 61"]) (simp_all)
  have c3: "fl (1 + (8653828097558047 / 10384593717069655257060992658440192)) = Num 1"
    by (rule fl_normalI [where e = "0"]) (simp_all)
  have c4: "fl (1 powi (- 36)) = Num 1"
    by (rule fl_normalI [where e = "0"]) (simp_all add: power_int_minus power_divide)
  have c5: "fl (1 - 1) = Num 0"
    by (simp add: fl_zero)
  have c6: "fl (0 / (8653828097558047 / 10384593717069655257060992658440192)) = Num 0"
    by (simp add: fl_zero)
  have c7: "fl (1000 * 0) = Num 0"
    by (simp add: fl_zero)
  have c8: "fl (0 * 100) = Num 0"
    by (simp add: fl_zero)
  have c9: "fl (of_int \<lfloor>0 + 1 / 2 :: rat\<rfloor> / 100) = Num 0"
    by (simp add: fl_zero)
  have c10: "round2 (Num 0) = Num 0"
    by (rule round2_eval [OF c8 c9])
  show ?thesis
    unfolding rate by (rule presentValue_eval [OF c2 _ c3 _ c4 c5 c6 c7 c10]) simp_all
qed

lemma pv_1e17_2:
  "calculatePresentValue (Num 1000) (fl (1 / 10 ^ 17)) (Some 2) = Num 0"
proof -
  have rate: "fl (1 / 10 ^ 17) = Num (6490371073168535 / 649037107316853453566312041152512)"
    by (rule fl_insideI [where e = "- 57"]) (simp_all)
  have c2: "fl ((6490371073168535 / 649037107316853453566312041152512) / 12) = Num (8653828097558047 / 10384593717069655257060992658440192)"
    by (rule fl_insideI [where e = "- 61"]) (simp_all)
  have c3: "fl (1 + (8653828097558047 / 10384593717069655257060992658440192)) = Num 1"
    by (rule fl_normalI [where e = "0"]) (simp_all)
  have c4: "fl (1 powi (- 2)) = Num 1"
    by (rule fl_normalI [where e = "0"]) (simp_all add: power_int_minus power_divide)
  have c5: "fl (1 - 1) = Num 0"
    by (simp add: fl_zero)
  have c6: "fl (0 / (8653828097558047 / 10384593717069655257060992658440192)) = Num 0"
    by (simp add: fl_zero)
  have c7: "fl (1000 * 0) = Num 0"
    by (simp add: fl_zero)
  have c8: "fl (0 * 100) = Num 0"
    by (simp add: fl_zero)
  have c9: "fl (of_int \<lfloor>0 + 1 / 2 :: rat\<rfloor> / 100) = Num 0"
    by (simp add: fl_zero)
  have c10: "round2 (Num 0) = Num 0"
    by (rule round2_eval [OF c8 c9])
  show ?thesis
    unfolding rate by (rule presentValue_eval [OF c2 _ c3 _ c4 c5 c6 c7 c10]) simp_all
qed

lemma pv_2e15_1:
  "calculatePresentValue (Num 1000) (fl (2 / 10 ^ 15)) (Some 1) = Num (2929692712674263 / 2199023255552)"
proof -
  have rate: "fl (2 / 10 ^ 15) = Num (2535301200456459 / 1267650600228229401496703205376)"
    by (rule fl_insideI [where e = "- 49"]) (simp_all)
  have c2: "fl ((2535301200456459 / 1267650600228229401496703205376) / 12) = Num (845100400152153 / 5070602400912917605986812821504)"
    by (rule fl_insideI [where e = "- 53"]) (simp_all)
  have c3: "fl (1 + (845100400152153 / 5070602400912917605986812821504)) = Num (4503599627370497 / 4503599627370496)"
    by (rule fl_insideI [where e = "0"]) (simp_all)
  have c4: "fl ((4503599627370497 / 4503599627370496) powi (- 1)) = Num (4503599627370495 / 4503599627370496)"
    by (rule fl_insideI [where e = "- 1"]) (simp_all add: power_int_minus power_divide)
  have c5: "fl (1 - (4503599627370495 / 4503599627370496)) = Num (1 / 4503599627370496)"
    by (rule fl_normalI [where e = "- 52"]) (simp_all)
  have c6: "fl ((1 / 4503599627370496) / (845100400152153 / 5070602400912917605986812821504)) = Num (91552734375 / 68719476736)"
    by (rule fl_insideI [where e = "0"]) (simp_all)
  have c7: "fl (1000 * (91552734375 / 68719476736)) = Num (11444091796875 / 8589934592)"
    by (rule fl_insideI [where e = "10"]) (simp_all)
  have c8: "fl ((11444091796875 / 8589934592) * 100) = Num (286102294921875 / 2147483648)"
    by (rule fl_insideI [where e = "17"]) (simp_all)
  have c9: "fl (of_int \<lfloor>(286102294921875 / 2147483648) + 1 / 2 :: rat\<rfloor> / 100) = Num (2929692712674263 / 2199023255552)"
    by (rule fl_insideI [where e = "10"]) (simp_all)
  have c10: "round2 (Num (11444091796875 / 8589934592)) = Num (2929692712674263 / 2199023255552)"
    by (rule round2_eval [OF c8 c9])
  show ?thesis
    unfolding rate by (rule presentValue_eval [OF c2 _ c3 _ c4 c5 c6 c7 c10]) simp_all
qed

lemma pv_2e15_36:
  "calculatePresentValue (Num 1000) (fl (2 / 10 ^ 15)) (Some 36) = Num (6591796234011279 / 137438953472)"
proof -
  have rate: "fl (2 / 10 ^ 15) = Num (2535301200456459 / 1267650600228229401496703205376)"
    by (rule fl_insideI [where e = "- 49"]) (simp_all)
  have c2: "fl ((2535301200456459 / 1267650600228229401496703205376) / 12) = Num (845100400152153 / 5070602400912917605986812821504)"
    by (rule fl_insideI [where e = "- 53"]) (simp_all)
  have c3: "fl (1 + (845100400152153 / 5070602400912917605986812821504)) = Num (4503599627370497 / 4503599627370496)"
    by (rule fl_insideI [where e = "0"]) (simp_all)
  have c4: "fl ((4503599627370497 / 4503599627370496) powi (- 36)) = Num (1125899906842615 / 1125899906842624)"
    by (rule fl_insideI [where e = "- 1"]) (simp_all add: power_int_minus power_divide)
  have c5: "fl (1 - (1125899906842615 / 1125899906842624)) = Num (9 / 1125899906842624)"
    by (rule fl_insideI [where e = "- 47"]) (simp_all)
  have c6: "fl ((9 / 1125899906842624) / (845100400152153 / 5070602400912917605986812821504)) = Num (6749999999999999 / 140737488355328)"
    by (rule fl_insideI [where e = "5"]) (simp_all)
  have c7: "fl (1000 * (6749999999999999 / 140737488355328)) = Num (6591796874999999 / 137438953472)"
    by (rule fl_insideI [where e = "15"]) (simp_all)
  have c8: "fl ((6591796874999999 / 137438953472) * 100) = Num (5149841308593749 / 1073741824)"
    by (rule fl_insideI [where e = "22"]) (simp_all)
  have c9: "fl (of_int \<lfloor>(5149841308593749 / 1073741824) + 1 / 2 :: rat\<rfloor> / 100) = Num (6591796234011279 / 137438953472)"
    by (rule fl_insideI [where e = "15"]) (simp_all)
  have c10: "round2 (Num (6591796874999999 / 137438953472)) = Num (6591796234011279 / 137438953472)"
    by (rule round2_eval [OF c8 c9])
  show ?thesis
    unfolding rate by (rule presentValue_eval [OF c2 _ c3 _ c4 c5 c6 c7 c10]) simp_all
qed

lemma monthly_rate_1e17:
  "js_div (Num (6490371073168535 / 649037107316853453566312041152512)) (Num 12) = Num (8653828097558047 / 10384593717069655257060992658440192)"
proof -
  have c1: "fl ((6490371073168535 / 649037107316853453566312041152512) / 12) = Num (8653828097558047 / 10384593717069655257060992658440192)"
    by (rule fl_insideI [where e = "- 61"]) (simp_all)
  show ?thesis
    using c1 by simp
qed

lemma rate_1e17: "fl (1 / 10 ^ 17) = Num (6490371073168535 / 649037107316853453566312041152512)"
  by (rule fl_insideI [where e = "- 57"]) (simp_all)

lemma rate_2e15: "fl (2 / 10 ^ 15) = Num (2535301200456459 / 1267650600228229401496703205376)"
  by (rule fl_insideI [where e = "- 49"]) (simp_all)

subsection \<open>Amounts in cents\<close>

lemma cents_16252363: "fl (16252363 / 100) = Num (1396067351354409 / 8589934592)"
  by (rule fl_insideI [where e = "17"]) (simp_all)

lemma cents_16202363: "fl (16202363 / 100) = Num (1391772384058409 / 8589934592)"
  by (rule fl_insideI [where e = "17"]) (simp_all)

lemma cents_462925: "fl (462925 / 100) = Num (18517 / 4)"
  by (rule fl_insideI [where e = "12"]) (simp_all)

lemma cents_795918: "fl (795918 / 100) = Num (1093901369695273 / 137438953472)"
  by (rule fl_insideI [where e = "12"]) (simp_all)

lemma cents_745918: "fl (745918 / 100) = Num (1025181892959273 / 137438953472)"
  by (rule fl_insideI [where e = "12"]) (simp_all)

lemma cents_372959: "fl (372959 / 100) = Num (1025181892959273 / 274877906944)"
  by (rule fl_insideI [where e = "11"]) (simp_all)


lemma cents_23472: "fl (23472 / 100) = Num (8258475816690647 / 35184372088832)"
  by (rule fl_insideI [where e = "7"]) (simp_all)

lemma cents_933029: "fl (933029 / 100) = Num (1282345293190267 / 137438953472)"
  by (rule fl_insideI [where e = "13"]) (simp_all)

lemma cents_956501: "fl (956501 / 100) = Num (5258419857396859 / 549755813888)"
  by (rule fl_insideI [where e = "13"]) (simp_all)

lemma cents_133227: "fl (133227 / 100) = Num (2929692712674263 / 2199023255552)"
  by (rule fl_insideI [where e = "10"]) (simp_all)

lemma cents_4796163: "fl (4796163 / 100) = Num (6591796234011279 / 137438953472)"
  by (rule fl_insideI [where e = "15"]) (simp_all)

lemma cents_15820081: "fl (15820081 / 100) = Num (2717869220602839 / 17179869184)"
  by (rule fl_insideI [where e = "17"]) (simp_all)

lemma cents_6480938: "fl (6480938 / 100) = Num (8907333362369167 / 137438953472)"
  by (rule fl_insideI [where e = "15"]) (simp_all)



section \<open>Dates east of UTC\<close>

text \<open>
  In a time zone at or east of UTC (and under a day from it) a valid date-only string is
  read back as the calendar day it names, and the term is the one the specification
  words.
\<close>

lemma new_Date_east:
  assumes "0 \<le> offset" "new_Date offset (DateOnly y m d) = Some dt"
  shows "getFullYear dt = y \<and> getMonth dt = m - 1 \<and> getDate dt = d"
  using assms by (auto simp: Let_def split: if_splits)

lemma calculateLeaseTerm_east:
  assumes "0 \<le> offset" "new_Date offset s \<noteq> None" "new_Date offset e \<noteq> None"
  shows "calculateLeaseTerm offset s e = spec_leaseTerm s e"
proof -
  obtain y1 m1 d1 where s: "s = DateOnly y1 m1 d1" using assms(2) by (cases s) simp_all
  obtain y2 m2 d2 where e: "e = DateOnly y2 m2 d2" using assms(3) by (cases e) simp_all
  obtain ds de where ds: "new_Date offset s = Some ds" and de: "new_Date offset e = Some de"
    using assms(2,3) by auto
  from new_Date_east [OF assms(1) ds [unfolded s]] new_Date_east [OF assms(1) de [unfolded e]]
  show ?thesis using ds de by (simp add: calculateLeaseTerm_def s e)
qed

lemma same_month_strings_no_rows:
  assumes "0 \<le> offset"
  shows "term_rows (calculateLeaseTerm offset (DateOnly y m d) (DateOnly y m d')) = 0"
  using assms by (simp add: calculateLeaseTerm_def term_rows_def Let_def)

section \<open>The claims\<close>

text \<open>
  Claim C1: each core function (\<^verbatim>\<open>calculateLeaseMetrics\<close>,
  \<^verbatim>\<open>generateAmortizationSchedule\<close>) raises a DegenerateTermError when the term in
  months is not positive and an InvalidRateError when the discount rate lies outside
  \<open>[0, 1]\<close>. The source has no \<^verbatim>\<open>throw\<close> and performs no operation that throws, so
  every call returns a value, as the functions of the model do. On the sample lease ended
  in its first month, which passes \<^verbatim>\<open>leaseDataSchema\<close> and has a term of 0 (in UTC),
  \<^verbatim>\<open>calculateLeaseMetrics\<close> returns a record with an initial right-of-use asset of
  -500 and a monthly amortization expense of minus infinity, and
  \<^verbatim>\<open>generateAmortizationSchedule\<close> returns the empty schedule. On the sample lease
  over two months at a rate of 200% both return finite amounts.
\<close>

theorem degenerate_inputs_return_values:
  "leaseDataSchema same_month_lease \<and>
   calculateLeaseMetrics 0 same_month_lease =
     \<lparr>initialLeasePayment = Num 5000, initialRightOfUseAsset = Num (- 500),
      initialLeaseLiability = Num 0, monthlyInterestExpense = Num 0,
      monthlyAmortizationExpense = NegInfinity, monthlyLeaseLiabilityReduction = Num 0,
      totalLeaseTerm = Some 0, presentValueOfLeasePayments = Num 0\<rparr> \<and>
   generateAmortizationSchedule 0 same_month_lease = [] \<and>
   \<not> in_unit_interval (discountRate rate_200_lease) \<and>
   calculateLeaseMetrics 0 rate_200_lease =
     \<lparr>initialLeasePayment = Num 5000, initialRightOfUseAsset = fl (745918 / 100),
      initialLeaseLiability = fl (795918 / 100), monthlyInterestExpense = Num 0,
      monthlyAmortizationExpense = fl (372959 / 100), monthlyLeaseLiabilityReduction = Num 0,
      totalLeaseTerm = Some 2, presentValueOfLeasePayments = fl (795918 / 100)\<rparr> \<and>
   length (generateAmortizationSchedule 0 rate_200_lease) = 2"
proof -
  have valid: "leaseDataSchema same_month_lease"
    using same_month_fields
    by (simp add: leaseDataSchema_def end_after_start_def date_gt_def daysInMonth_def
        leap_year_def same_month_lease_def sample_lease_def)
  have "length (generateAmortizationSchedule 0 same_month_lease) = 0"
    by (rule same_month_length)
  then have empty: "generateAmortizationSchedule 0 same_month_lease = []" by simp
  have rate: "\<not> in_unit_interval (discountRate rate_200_lease)"
    by (simp add: rate_200_fields)
  show ?thesis
    unfolding cents_745918 cents_795918 cents_372959
    using valid empty rate same_month_metrics rate_200_metrics rate_200_length by simp
qed

text \<open>
  Claim C2, as stated: from the second month on, a month of the schedule loop starts
  from the previous row's ending balances rounded to two decimals. It fails on the sample
  lease for both balances: the second month starts from the liability
  158200.81179166667 where the first row stores 158200.81, and month 22 starts from the
  asset balance 64809.380000000005 where row 21 stores 64809.38.
\<close>

theorem carried_balance_is_not_rounded:
  "currentLeaseLiability (state_after 0 sample_lease 1) =
     Num (1358934625691719 / 8589934592) \<and>
   endingLeaseLiability (generateAmortizationSchedule 0 sample_lease ! 0) =
     fl (15820081 / 100) \<and>
   currentLeaseLiability (state_after 0 sample_lease 1) \<noteq>
     endingLeaseLiability (generateAmortizationSchedule 0 sample_lease ! 0) \<and>
   currentRightOfUseAsset (state_after 0 sample_lease 21) =
     Num (556708335148073 / 8589934592) \<and>
   rightOfUseAssetBalance (generateAmortizationSchedule 0 sample_lease ! 20) =
     fl (6480938 / 100) \<and>
   currentRightOfUseAsset (state_after 0 sample_lease 21) \<noteq>
     rightOfUseAssetBalance (generateAmortizationSchedule 0 sample_lease ! 20)"
  unfolding cents_15820081 cents_6480938
  unfolding sample_liability_1 sample_ending_0 sample_asset_21 sample_balance_20
  by simp

text \<open>
  Claim C2, amended: every month of the loop starts from the previous month's ending
  balances after the floor at 0, carried forward unrounded: the liability is
  \<open>max (0, liability - (payment - liability * rate))\<close> and the asset balance is
  \<open>max (0, balance - amortization)\<close>, each operation rounded to a double only. A balance
  is rounded to two decimals only where it is stored in the row.
\<close>

theorem carried_balances_full_precision:
  assumes "k < length (generateAmortizationSchedule offset ld)"
  shows "for_loop offset ld (calculateLeaseMetrics offset ld) (js_div (discountRate ld) (Num 12))
           (int k + 1) (state_after offset ld k) =
         for_loop offset ld (calculateLeaseMetrics offset ld) (js_div (discountRate ld) (Num 12))
           1 (schedule_init (calculateLeaseMetrics offset ld)) \<and>
         currentLeaseLiability (state_after offset ld (Suc k)) =
         Math_max (Num 0)
           (js_sub (currentLeaseLiability (state_after offset ld k))
              (js_sub (monthlyPayment ld)
                 (js_mul (currentLeaseLiability (state_after offset ld k))
                    (js_div (discountRate ld) (Num 12))))) \<and>
         currentRightOfUseAsset (state_after offset ld (Suc k)) =
         Math_max (Num 0)
           (js_sub (currentRightOfUseAsset (state_after offset ld k))
              (monthlyAmortizationExpense (calculateLeaseMetrics offset ld))) \<and>
         beginningLeaseLiability (generateAmortizationSchedule offset ld ! k) =
         round2 (currentLeaseLiability (state_after offset ld k)) \<and>
         endingLeaseLiability (generateAmortizationSchedule offset ld ! k) =
         round2 (currentLeaseLiability (state_after offset ld (Suc k))) \<and>
         rightOfUseAssetBalance (generateAmortizationSchedule offset ld ! k) =
         round2 (currentRightOfUseAsset (state_after offset ld (Suc k)))"
proof (intro conjI)
  have kn: "k \<le> term_rows (totalLeaseTerm (calculateLeaseMetrics offset ld))"
    using assms by (simp add: length_schedule totalLeaseTerm_eq)
  show "for_loop offset ld (calculateLeaseMetrics offset ld) (js_div (discountRate ld) (Num 12))
           (int k + 1) (state_after offset ld k) =
         for_loop offset ld (calculateLeaseMetrics offset ld) (js_div (discountRate ld) (Num 12))
           1 (schedule_init (calculateLeaseMetrics offset ld))"
    using for_loop_state_after [OF kn] for_loop_state_after [of 0 offset ld]
    by (simp add: state_after.simps)
  show "currentLeaseLiability (state_after offset ld (Suc k)) =
         Math_max (Num 0)
           (js_sub (currentLeaseLiability (state_after offset ld k))
              (js_sub (monthlyPayment ld)
                 (js_mul (currentLeaseLiability (state_after offset ld k))
                    (js_div (discountRate ld) (Num 12)))))"
    by (rule state_after_Suc_liability)
  show "currentRightOfUseAsset (state_after offset ld (Suc k)) =
         Math_max (Num 0)
           (js_sub (currentRightOfUseAsset (state_after offset ld k))
              (monthlyAmortizationExpense (calculateLeaseMetrics offset ld)))"
    by (rule state_after_Suc_asset)
  show "beginningLeaseLiability (generateAmortizationSchedule offset ld ! k) =
         round2 (currentLeaseLiability (state_after offset ld k))"
    using assms by (simp only: nth_schedule last_row_beginning)
  show "endingLeaseLiability (generateAmortizationSchedule offset ld ! k) =
         round2 (currentLeaseLiability (state_after offset ld (Suc k)))"
    using assms by (simp only: nth_schedule last_row_ending)
  show "rightOfUseAssetBalance (generateAmortizationSchedule offset ld ! k) =
         round2 (currentRightOfUseAsset (state_after offset ld (Suc k)))"
    using assms by (simp only: nth_schedule last_row_balance)
qed

theorem carried_balances_full_precision_witness:
  "0 < length (generateAmortizationSchedule 0 sample_lease) \<and>
   currentLeaseLiability (state_after 0 sample_lease (Suc 0)) =
     Math_max (Num 0)
       (js_sub (fl (16252363 / 100))
          (js_sub (Num 5000) (js_mul (fl (16252363 / 100)) (js_div (fl (5 / 100)) (Num 12))))) \<and>
   endingLeaseLiability (generateAmortizationSchedule 0 sample_lease ! 0) =
     round2 (currentLeaseLiability (state_after 0 sample_lease (Suc 0)))"
proof -
  have h: "0 < length (generateAmortizationSchedule 0 sample_lease)"
    by (simp add: sample_length)
  show ?thesis
    unfolding cents_16252363 sample_rate
    using h carried_balances_full_precision [OF h]
    unfolding sample_liability_0 sample_fields by blast
qed

text \<open>
  Claim C3, as stated: a lease whose start and end dates fall in the same calendar month
  gets a schedule of exactly one row. It fails on the sample lease ended on 2024-01-31:
  its term is 0 and its schedule is empty.
\<close>

theorem same_month_schedule_not_one_row:
  "leaseStartDate same_month_lease = DateOnly 2024 1 1 \<and>
   leaseEndDate same_month_lease = DateOnly 2024 1 31 \<and>
   calculateLeaseTerm 0 (leaseStartDate same_month_lease) (leaseEndDate same_month_lease) =
     Some 0 \<and>
   generateAmortizationSchedule 0 same_month_lease = [] \<and>
   length (generateAmortizationSchedule 0 same_month_lease) \<noteq> 1"
  using same_month_length same_month_term
  by (simp add: same_month_lease_def sample_lease_def)

text \<open>
  Claim C3, amended: the schedule has as many rows as the term in months when that is
  positive and none otherwise (none also when the term is NaN); for a lease whose start
  and end dates, as the engine reads them, fall in the same calendar month the schedule
  is empty, and at or east of UTC so it is whenever the two date strings name the same
  year and month.
\<close>

theorem schedule_length_is_term:
  "length (generateAmortizationSchedule offset ld) =
     term_rows (calculateLeaseTerm offset (leaseStartDate ld) (leaseEndDate ld)) \<and>
   (new_Date offset (leaseStartDate ld) = Some start \<and>
    new_Date offset (leaseEndDate ld) = Some end \<and>
    getFullYear start = getFullYear end \<and> getMonth start = getMonth end \<longrightarrow>
    generateAmortizationSchedule offset ld = []) \<and>
   (0 \<le> offset \<and> leaseStartDate ld = DateOnly y m d \<and> leaseEndDate ld = DateOnly y m d' \<longrightarrow>
    generateAmortizationSchedule offset ld = [])"
proof (intro conjI impI)
  show len: "length (generateAmortizationSchedule offset ld) =
     term_rows (calculateLeaseTerm offset (leaseStartDate ld) (leaseEndDate ld))"
    by (rule length_schedule)
  show "generateAmortizationSchedule offset ld = []"
    if "new_Date offset (leaseStartDate ld) = Some start \<and>
        new_Date offset (leaseEndDate ld) = Some end \<and>
        getFullYear start = getFullYear end \<and> getMonth start = getMonth end"
  proof -
    have "length (generateAmortizationSchedule offset ld) = 0"
      using that by (simp add: len calculateLeaseTerm_def term_rows_def)
    then show ?thesis by simp
  qed
  show "generateAmortizationSchedule offset ld = []"
    if "0 \<le> offset \<and> leaseStartDate ld = DateOnly y m d \<and> leaseEndDate ld = DateOnly y m d'"
  proof -
    have "length (generateAmortizationSchedule offset ld) = 0"
      using that same_month_strings_no_rows [of offset y m d d'] by (simp add: len)
    then show ?thesis by simp
  qed
qed

theorem schedule_length_is_term_witness:
  "new_Date 0 (leaseStartDate same_month_lease) =
     Some \<lparr>getFullYear = 2024, getMonth = 0, getDate = 1\<rparr> \<and>
   new_Date 0 (leaseEndDate same_month_lease) =
     Some \<lparr>getFullYear = 2024, getMonth = 0, getDate = 31\<rparr> \<and>
   leaseStartDate same_month_lease = DateOnly 2024 1 1 \<and>
   leaseEndDate same_month_lease = DateOnly 2024 1 31 \<and>
   generateAmortizationSchedule 0 same_month_lease = [] \<and>
   length (generateAmortizationSchedule 0 sample_lease) = 35 \<and>
   length (generateAmortizationSchedule (- 300) sample_lease) = 36"
proof -
  have s: "leaseStartDate same_month_lease = DateOnly 2024 1 1"
    and e: "leaseEndDate same_month_lease = DateOnly 2024 1 31"
    by (simp_all add: same_month_lease_def sample_lease_def)
  have ds: "new_Date 0 (leaseStartDate same_month_lease) =
      Some \<lparr>getFullYear = 2024, getMonth = 0, getDate = 1\<rparr>"
    and de: "new_Date 0 (leaseEndDate same_month_lease) =
      Some \<lparr>getFullYear = 2024, getMonth = 0, getDate = 31\<rparr>"
    unfolding s e by (simp_all add: daysInMonth_def leap_year_def)
  have "generateAmortizationSchedule 0 same_month_lease = []"
    using schedule_length_is_term
      [of 0 same_month_lease "\<lparr>getFullYear = 2024, getMonth = 0, getDate = 1\<rparr>"
         "\<lparr>getFullYear = 2024, getMonth = 0, getDate = 31\<rparr>" 2024 1 1 31]
      s e ds de
    by simp
  moreover have "length (generateAmortizationSchedule 0 sample_lease) = 35"
    using schedule_length_is_term [of 0 sample_lease] sample_term by (simp add: term_rows_def)
  moreover have "length (generateAmortizationSchedule (- 300) sample_lease) = 36"
    using schedule_length_is_term [of "- 300" sample_lease]
    by (simp add: term_rows_def sample_lease_def calculateLeaseTerm_def daysInMonth_def
        leap_year_def previous_day_def)
  ultimately show ?thesis using s e ds de by simp
qed




text \<open>
  Claim C5: for every journal entry that \<^verbatim>\<open>generateInitialRecognitionEntry\<close> or
  \<^verbatim>\<open>generateMonthlyAmortizationEntries\<close> produces from a lease that passes validation,
  the debits and the credits sum to the same amount within 0.01. On the valid lease of
  two months with a payment of 9565 at a rate of 15% the first entry debits 234.72 and
  9330.29 against a credit of 9565: the interest 234.715 and the principal reduction
  9330.285 are both rounded up. The debits sum to 9565.01, and the difference of the
  totals, 0.010000000000218279, is greater than 0.01: the entry is out of balance, and
  the balance check of \<^verbatim>\<open>journalEntrySchema\<close> rejects it.
\<close>

theorem interest_entry_out_of_balance:
  "leaseDataSchema half_cent_lease \<and>
   debits (generateMonthlyAmortizationEntries 0 half_cent_lease ! 0) =
     [\<lparr>account = ''Interest Expense'', amount = fl (23472 / 100)\<rparr>,
      \<lparr>account = ''Lease Liability'', amount = fl (933029 / 100)\<rparr>] \<and>
   credits (generateMonthlyAmortizationEntries 0 half_cent_lease ! 0) =
     [\<lparr>account = ''Cash'', amount = Num 9565\<rparr>] \<and>
   reduce_sum (debits (generateMonthlyAmortizationEntries 0 half_cent_lease ! 0)) =
     fl (956501 / 100) \<and>
   imbalance (generateMonthlyAmortizationEntries 0 half_cent_lease ! 0) =
     Num (5497558139 / 549755813888) \<and>
   js_gt (imbalance (generateMonthlyAmortizationEntries 0 half_cent_lease ! 0)) (fl (1 / 100)) \<and>
   \<not> balanced (generateMonthlyAmortizationEntries 0 half_cent_lease ! 0) \<and>
   \<not> journalEntrySchema_balance (generateMonthlyAmortizationEntries 0 half_cent_lease ! 0)"
proof -
  let ?e = "generateMonthlyAmortizationEntries 0 half_cent_lease ! 0"
  have valid: "leaseDataSchema half_cent_lease"
    using half_cent_fields
    by (simp add: leaseDataSchema_def end_after_start_def date_gt_def daysInMonth_def
        leap_year_def half_cent_lease_def)
  have len: "0 < length (generateAmortizationSchedule 0 half_cent_lease)"
    by (simp add: half_cent_length)
  have entry: "?e = interestEntry half_cent_lease (generateAmortizationSchedule 0 half_cent_lease ! 0)"
    using nth_entries(1) [OF len] by simp
  have d: "debits ?e =
     [\<lparr>account = ''Interest Expense'', amount = Num (8258475816690647 / 35184372088832)\<rparr>,
      \<lparr>account = ''Lease Liability'', amount = Num (1282345293190267 / 137438953472)\<rparr>]"
    unfolding entry using half_cent_row_0 by (simp add: interestEntry_def)
  have c: "credits ?e = [\<lparr>account = ''Cash'', amount = Num 9565\<rparr>]"
    unfolding entry using row_payment [OF len] by (simp add: interestEntry_def half_cent_fields)
  have sd: "reduce_sum (debits ?e) = Num (5258419857396859 / 549755813888)"
    unfolding d by (rule reduce_sum_two [OF half_cent_sums(1,2)])
  have sc: "reduce_sum (credits ?e) = Num 9565"
    unfolding c by (rule reduce_sum_one [OF half_cent_sums(3)])
  have im: "imbalance ?e = Num (5497558139 / 549755813888)"
    using imbalance_eval [OF sd sc half_cent_sums(4)] by simp
  have gt: "js_gt (imbalance ?e) (fl (1 / 100))"
    unfolding im half_cent_sums(5) by simp
  have nb: "\<not> balanced ?e"
    unfolding balanced_def im half_cent_sums(5) by simp
  have ns: "\<not> journalEntrySchema_balance ?e"
    unfolding journalEntrySchema_balance_def im half_cent_sums(5) by simp
  show ?thesis
    unfolding cents_23472 cents_933029 cents_956501
    using valid d c sd im gt nb ns by simp
qed

text \<open>
  Claim C6: in every schedule returned by \<^verbatim>\<open>generateAmortizationSchedule\<close> the
  stored \<^verbatim>\<open>beginningLeaseLiability\<close> of row \<open>i + 1\<close> equals the stored
  \<^verbatim>\<open>endingLeaseLiability\<close> of row \<open>i\<close>.
\<close>

theorem chaining_invariant:
  assumes "Suc i < length (generateAmortizationSchedule offset ld)"
  shows "beginningLeaseLiability (generateAmortizationSchedule offset ld ! Suc i) =
         endingLeaseLiability (generateAmortizationSchedule offset ld ! i)"
proof -
  have "i < length (generateAmortizationSchedule offset ld)" using assms by simp
  then show ?thesis
    using assms by (simp add: nth_schedule last_row_ending last_row_beginning)
qed

theorem chaining_invariant_witness:
  "Suc 0 < length (generateAmortizationSchedule 0 sample_lease) \<and>
   beginningLeaseLiability (generateAmortizationSchedule 0 sample_lease ! Suc 0) =
   endingLeaseLiability (generateAmortizationSchedule 0 sample_lease ! 0) \<and>
   beginningLeaseLiability (generateAmortizationSchedule 0 sample_lease ! Suc 0) =
   fl (15820081 / 100)"
proof -
  have h: "Suc 0 < length (generateAmortizationSchedule 0 sample_lease)"
    by (simp add: sample_length)
  show ?thesis
    unfolding cents_15820081
    using h chaining_invariant [OF h] sample_ending_0 by simp
qed

text \<open>
  Claim C7: \<^verbatim>\<open>calculatePresentValue\<close> returns the payment times the number of periods
  when \<open>annualRate / 12\<close> is 0 and otherwise the ordinary-annuity value
  \<open>payment * (1 - (1 + monthlyRate) ^ (- periods)) / monthlyRate\<close> rounded to two
  decimals. At a rate near zero the code loses that value to cancellation: for a payment
  of 1000 over 36 periods the formula gives 36000.00 at the rates 1e-17 and 2e-15, and
  the code returns 0 at the first (\<open>1 + monthlyRate\<close> rounds to 1) and 47961.63 at the
  second. Both rates pass the validation.
\<close>

theorem present_value_lost_near_zero_rate:
  "in_unit_interval (fl (1 / 10 ^ 17)) \<and>
   js_div (fl (1 / 10 ^ 17)) (Num 12) \<noteq> Num 0 \<and>
   calculatePresentValue (Num 1000) (fl (1 / 10 ^ 17)) (Some 36) = Num 0 \<and>
   spec_presentValue 1000 (finite_value (fl (1 / 10 ^ 17))) 36 = 36000 \<and>
   in_unit_interval (fl (2 / 10 ^ 15)) \<and>
   calculatePresentValue (Num 1000) (fl (2 / 10 ^ 15)) (Some 36) = fl (4796163 / 100) \<and>
   spec_presentValue 1000 (finite_value (fl (2 / 10 ^ 15))) 36 = 36000"
proof -
  have s17: "spec_presentValue 1000 (6490371073168535 / 649037107316853453566312041152512) 36 = 36000"
    using spec_presentValue_near_zero_rate
      [of "6490371073168535 / 649037107316853453566312041152512" 1000 36 3600000]
    by simp
  have s15: "spec_presentValue 1000 (2535301200456459 / 1267650600228229401496703205376) 36 = 36000"
    using spec_presentValue_near_zero_rate
      [of "2535301200456459 / 1267650600228229401496703205376" 1000 36 3600000]
    by simp
  have r17: "js_div (Num (6490371073168535 / 649037107316853453566312041152512)) (Num 12) \<noteq> Num 0"
    using monthly_rate_1e17 by simp
  show ?thesis
    unfolding pv_1e17_36 pv_2e15_36 cents_4796163
    unfolding rate_1e17 rate_2e15
    using s17 s15 r17 by simp
qed

text \<open>
  Claim C8: for every pair of calendar dates \<^verbatim>\<open>calculateLeaseTerm\<close> returns twelve
  times the difference of the years plus the difference of the months, whatever the days
  of the month. The code parses a date-only string as midnight UTC and reads the year and
  the month back in local time. Five hours west of UTC the first of a month is read as
  the last day of the month before: the term of 2024-01-01 to 2024-01-31 is 1 there and
  that of 2024-01-02 to 2024-01-31 is 0, so the day of the month decides, and the three
  terms that the test suite expects to be 35, 11 and 0 are 36, 12 and 1. In UTC they are
  the expected ones.
\<close>

theorem lease_term_read_in_local_time:
  "calculateLeaseTerm (- 300) (DateOnly 2024 1 1) (DateOnly 2024 1 31) = Some 1 \<and>
   spec_leaseTerm (DateOnly 2024 1 1) (DateOnly 2024 1 31) = Some 0 \<and>
   calculateLeaseTerm (- 300) (DateOnly 2024 1 2) (DateOnly 2024 1 31) = Some 0 \<and>
   calculateLeaseTerm (- 300) (DateOnly 2024 1 1) (DateOnly 2026 12 31) = Some 36 \<and>
   spec_leaseTerm (DateOnly 2024 1 1) (DateOnly 2026 12 31) = Some 35 \<and>
   calculateLeaseTerm (- 300) (DateOnly 2024 1 1) (DateOnly 2024 12 31) = Some 12 \<and>
   spec_leaseTerm (DateOnly 2024 1 1) (DateOnly 2024 12 31) = Some 11 \<and>
   calculateLeaseTerm 0 (DateOnly 2024 1 1) (DateOnly 2024 1 31) = Some 0 \<and>
   calculateLeaseTerm 0 (DateOnly 2024 1 1) (DateOnly 2026 12 31) = Some 35 \<and>
   calculateLeaseTerm 0 (DateOnly 2024 1 1) (DateOnly 2024 12 31) = Some 11"
  by (simp add: calculateLeaseTerm_def daysInMonth_def leap_year_def previous_day_def)



text \<open>
  Claim C10: for every input the record returned by \<^verbatim>\<open>calculateLeaseMetrics\<close> has
  \<^verbatim>\<open>monthlyInterestExpense\<close> and \<^verbatim>\<open>monthlyLeaseLiabilityReduction\<close> equal to 0.
\<close>

theorem placeholders_zero:
  "monthlyInterestExpense (calculateLeaseMetrics offset ld) = Num 0 \<and>
   monthlyLeaseLiabilityReduction (calculateLeaseMetrics offset ld) = Num 0"
  by (simp add: calculateLeaseMetrics_def Let_def)

end
